theory Spec2Isabelle
  imports Complex_Main
begin

section \<open>The scene graph of \<^verbatim>\<open>script.js\<close>\<close>

text \<open>
  The script builds a small three.js scene (a sun, the Earth, one orbit ring and one
  meteor) and advances rotation angles on every animation frame. JavaScript numbers are
  modelled as exact reals: rounding of IEEE doubles (and of the 32-bit floats of a
  position buffer) is outside the model. A property that is read but absent on an
  object (\<^verbatim>\<open>undefined\<close>) is \<open>None\<close>.

  Objects of three.js live in a store: a list of objects, an object's identity being
  its index. The registry \<^verbatim>\<open>planets\<close> holds such identities, so two registry
  entries that reference one \<^verbatim>\<open>THREE.Group\<close> hold the same index.
\<close>

type_synonym Vector3 = "real \<times> real \<times> real"

datatype Geometry =
    SphereGeometry real nat nat
  | BufferGeometry "Vector3 list"
  | IcosahedronGeometry real nat "real list"

datatype Material =
    MeshBasicMaterial nat "nat option" real
  | MeshPhongMaterial nat "nat option" real bool
  | LineBasicMaterial nat real

datatype Kind = Mesh Geometry Material | Group | LineLoop Geometry Material

text \<open>
  The parent of an object: none yet (\<^verbatim>\<open>parent === null\<close>), the scene root, or another
  object of the store. The scene root itself is never transformed by the script.
\<close>

datatype Parent = NoParent | Scene | Obj nat

record Object3D =
  kind :: Kind
  obj_name :: string
  parent :: Parent
  position :: Vector3
  rotation_x :: real
  rotation_y :: real

text \<open>An entry of \<^verbatim>\<open>solarData\<close>: the object literal with its seven properties.\<close>

record BodyDescriptor =
  name :: string
  radius :: real
  distance :: real
  color :: nat
  orbitSpeed :: real
  rotationSpeed :: real
  emissive :: "nat option"

text \<open>
  The \<^verbatim>\<open>data\<close> of a registry entry has one of the two shapes the script writes: a
  catalog entry, or the literal \<^verbatim>\<open>{name, orbitSpeed, rotationSpeed, isAsteroid}\<close> of
  the meteor, which has no \<^verbatim>\<open>distance\<close>, \<^verbatim>\<open>radius\<close> or \<^verbatim>\<open>color\<close>.
\<close>

datatype BodyData = Catalog BodyDescriptor | Meteor string real real bool

fun data_name :: "BodyData \<Rightarrow> string" where
  "data_name (Catalog d) = name d"
| "data_name (Meteor n os rs a) = n"

fun data_distance :: "BodyData \<Rightarrow> real option" where
  "data_distance (Catalog d) = Some (distance d)"
| "data_distance (Meteor n os rs a) = None"

fun data_orbitSpeed :: "BodyData \<Rightarrow> real" where
  "data_orbitSpeed (Catalog d) = orbitSpeed d"
| "data_orbitSpeed (Meteor n os rs a) = os"

fun data_rotationSpeed :: "BodyData \<Rightarrow> real" where
  "data_rotationSpeed (Catalog d) = rotationSpeed d"
| "data_rotationSpeed (Meteor n os rs a) = rs"

text \<open>
  \<^verbatim>\<open>x > 0\<close> for a property that may be absent: \<^verbatim>\<open>undefined > 0\<close> converts
  \<^verbatim>\<open>undefined\<close> to NaN, and every comparison with NaN is false.
\<close>

fun js_gt0 :: "real option \<Rightarrow> bool" where
  "js_gt0 None = False"
| "js_gt0 (Some v) = (v > 0)"

record Body =
  mesh :: nat
  orbitGroup :: nat
  data :: BodyData

record State =
  objects :: "Object3D list"
  planets :: "Body list"
  controls_target :: Vector3
  earthTarget :: Vector3
  drawn :: nat

definition SOLAR_SYSTEM_SCALE :: real where
  "SOLAR_SYSTEM_SCALE = 0.5"

definition solarData :: "BodyDescriptor list" where
  "solarData =
    [\<lparr>name = ''Sun'', radius = 3.5, distance = 0, color = 16766720, orbitSpeed = 0,
      rotationSpeed = 0.005, emissive = Some 16769088\<rparr>,
     \<lparr>name = ''Earth'', radius = 1.0, distance = 11, color = 30719, orbitSpeed = 0.018,
      rotationSpeed = 0.03, emissive = None\<rparr>]"

text \<open>
  The module's state when \<^verbatim>\<open>init\<close> calls \<^verbatim>\<open>createSolarSystem\<close>: an empty registry,
  \<^verbatim>\<open>earthTarget\<close> and the target of the controls at the origin, no random number drawn.
  The camera, the lights and the renderer are not part of the model.
\<close>

definition initial :: State where
  "initial = \<lparr>objects = [], planets = [], controls_target = (0, 0, 0),
     earthTarget = (0, 0, 0), drawn = 0\<rparr>"

subsection \<open>Store operations and the random source\<close>

definition new_object :: "Kind \<Rightarrow> Object3D" where
  "new_object k = \<lparr>kind = k, obj_name = [], parent = NoParent, position = (0, 0, 0),
     rotation_x = 0, rotation_y = 0\<rparr>"

definition alloc :: "Object3D \<Rightarrow> State \<Rightarrow> nat \<times> State" where
  "alloc ob s = (length (objects s), s\<lparr>objects := objects s @ [ob]\<rparr>)"

definition modify :: "nat \<Rightarrow> (Object3D \<Rightarrow> Object3D) \<Rightarrow> State \<Rightarrow> State" where
  "modify i f s = s\<lparr>objects := (objects s)[i := f (objects s ! i)]\<rparr>"

text \<open>
  \<^verbatim>\<open>Math.random()\<close>: the \<open>n\<close>-th call returns \<open>rnd n\<close>, for a sequence \<open>rnd\<close> that is
  a parameter of the model.
\<close>

definition Math_random :: "(nat \<Rightarrow> real) \<Rightarrow> State \<Rightarrow> real \<times> State" where
  "Math_random rnd s = (rnd (drawn s), s\<lparr>drawn := Suc (drawn s)\<rparr>)"

definition set_position_x :: "real \<Rightarrow> Object3D \<Rightarrow> Object3D" where
  "set_position_x v ob = ob\<lparr>position := (v, fst (snd (position ob)), snd (snd (position ob)))\<rparr>"

subsection \<open>Transforms of three.js\<close>

text \<open>
  An object's local matrix is translation times rotation, the rotation being the Euler
  angles in order XYZ, that is the matrix \<open>Rx * Ry * Rz\<close>. The script sets only the
  angles about x and y, and never a scale.
\<close>

fun rotateY :: "real \<Rightarrow> Vector3 \<Rightarrow> Vector3" where
  "rotateY t (x, y, z) = (cos t * x + sin t * z, y, - sin t * x + cos t * z)"

fun rotateX :: "real \<Rightarrow> Vector3 \<Rightarrow> Vector3" where
  "rotateX t (x, y, z) = (x, cos t * y - sin t * z, sin t * y + cos t * z)"

fun vadd :: "Vector3 \<Rightarrow> Vector3 \<Rightarrow> Vector3" where
  "vadd (a, b, c) (x, y, z) = (a + x, b + y, c + z)"

definition applyLocal :: "Object3D \<Rightarrow> Vector3 \<Rightarrow> Vector3" where
  "applyLocal ob p = vadd (position ob) (rotateX (rotation_x ob) (rotateY (rotation_y ob) p))"

text \<open>
  The world position of a point given in an object's frame, through the chain of
  parents. The recursion of three.js does not end on a cyclic chain; here \<open>None\<close> is
  returned when the fuel is spent or an index is outside the store.
\<close>

fun localToWorld :: "nat \<Rightarrow> Object3D list \<Rightarrow> nat \<Rightarrow> Vector3 \<Rightarrow> Vector3 option" where
  "localToWorld 0 objs i p = None"
| "localToWorld (Suc fuel) objs i p =
     (if i < length objs then
        (case parent (objs ! i) of
           Obj j \<Rightarrow> localToWorld fuel objs j (applyLocal (objs ! i) p)
         | Scene \<Rightarrow> Some (applyLocal (objs ! i) p)
         | NoParent \<Rightarrow> Some (applyLocal (objs ! i) p))
      else None)"

definition getWorldPosition :: "Object3D list \<Rightarrow> nat \<Rightarrow> Vector3 option" where
  "getWorldPosition objs i = localToWorld (Suc (length objs)) objs i (0, 0, 0)"

subsection \<open>Scene construction\<close>

text \<open>
  \<^verbatim>\<open>createBody\<close>, the helper of \<^verbatim>\<open>createSolarSystem\<close>: a sphere mesh named after
  the entry, an orbit group with a random start angle about the vertical axis, the mesh
  at \<open>x = distance\<close> under the group, the group under the scene root. The catalog is
  a parameter of the model; the script passes \<open>solarData\<close>.
\<close>

definition createBody :: "(nat \<Rightarrow> real) \<Rightarrow> BodyDescriptor \<Rightarrow> State \<Rightarrow> Body \<times> State" where
  "createBody rnd d s =
    (let geometry = SphereGeometry (radius d * SOLAR_SYSTEM_SCALE) 32 32;
         material = (if name d = ''Sun''
                     then MeshBasicMaterial (color d) (emissive d) 1
                     else MeshPhongMaterial (color d) (Some 3355443) 15 False);
         (m, s1) = alloc (new_object (Mesh geometry material)) s;
         s2 = modify m (\<lambda>ob. ob\<lparr>obj_name := name d\<rparr>) s1;
         (g, s3) = alloc (new_object Group) s2;
         (r, s4) = Math_random rnd s3;
         s5 = modify g (\<lambda>ob. ob\<lparr>rotation_y := r * pi * 2\<rparr>) s4;
         s6 = modify m (set_position_x (distance d)) s5;
         s7 = modify m (\<lambda>ob. ob\<lparr>parent := Obj g\<rparr>) s6;
         s8 = modify g (\<lambda>ob. ob\<lparr>parent := Scene\<rparr>) s7
     in (\<lparr>mesh = m, orbitGroup = g, data = Catalog d\<rparr>, s8))"

text \<open>
  The points of an orbit line, for \<^verbatim>\<open>i\<close> from 0 to \<^verbatim>\<open>segments\<close> inclusive, and the
  callback of \<^verbatim>\<open>solarData.forEach\<close>: the body is built and pushed on the registry,
  and an entry with a positive distance gets a line loop, turned by \<open>pi / 2\<close> about
  the x axis and added to the scene root.
\<close>

definition orbitPoints :: "real \<Rightarrow> nat \<Rightarrow> Vector3 list" where
  "orbitPoints r segments =
     map (\<lambda>i. let angle = (real i / real segments) * pi * 2
               in (r * cos angle, 0, r * sin angle)) [0..<Suc segments]"

definition buildEntry :: "(nat \<Rightarrow> real) \<Rightarrow> BodyDescriptor \<Rightarrow> State \<Rightarrow> State" where
  "buildEntry rnd d s =
    (let (body, s1) = createBody rnd d s;
         s2 = s1\<lparr>planets := planets s1 @ [body]\<rparr>
     in if distance d > 0 then
          (let r = distance d;
               segments = 64;
               points = orbitPoints r segments;
               (orbitLine, s3) =
                  alloc (new_object (LineLoop (BufferGeometry points)
                                        (LineBasicMaterial 4473924 1))) s2;
               s4 = modify orbitLine (\<lambda>ob. ob\<lparr>rotation_x := pi / 2\<rparr>) s3
           in modify orbitLine (\<lambda>ob. ob\<lparr>parent := Scene\<rparr>) s4)
        else s2)"

text \<open>
  The deformation loop of \<^verbatim>\<open>createAsteroidMesh\<close>. The loop runs while
  \<^verbatim>\<open>i < positions.length / 3\<close>; a write beyond the end of a typed array is ignored,
  as list update is.
\<close>

definition deformVertex :: "(nat \<Rightarrow> real) \<Rightarrow> real \<Rightarrow> nat \<Rightarrow> real list \<times> State \<Rightarrow> real list \<times> State" where
  "deformVertex rnd size' i ps_s =
    (let (ps, s) = ps_s;
         index = i * 3;
         (r1, s1) = Math_random rnd s;
         ps1 = ps[index := ps ! index + (r1 - 0.5) * 0.1 * size'];
         (r2, s2) = Math_random rnd s1;
         ps2 = ps1[index + 1 := ps1 ! (index + 1) + (r2 - 0.5) * 0.1 * size'];
         (r3, s3) = Math_random rnd s2;
         ps3 = ps2[index + 2 := ps2 ! (index + 2) + (r3 - 0.5) * 0.1 * size']
     in (ps3, s3))"

definition deformPositions :: "(nat \<Rightarrow> real) \<Rightarrow> real \<Rightarrow> real list \<Rightarrow> State \<Rightarrow> real list \<times> State" where
  "deformPositions rnd size' positions s =
    (let vertexCount = real (length positions) / 3
     in fold (deformVertex rnd size') [0..<nat \<lceil>vertexCount\<rceil>] (positions, s))"

text \<open>
  \<open>ico size detail\<close> stands for the position array of
  \<^verbatim>\<open>new THREE.IcosahedronGeometry(size, detail)\<close>, which the library computes.
\<close>

definition createAsteroidMesh ::
  "(nat \<Rightarrow> real) \<Rightarrow> (real \<Rightarrow> nat \<Rightarrow> real list) \<Rightarrow> nat \<Rightarrow> real \<Rightarrow> State \<Rightarrow> nat \<times> State" where
  "createAsteroidMesh rnd ico c size' s =
    (let (positions, s1) = deformPositions rnd size' (ico size' 1) s;
         geometry = IcosahedronGeometry size' 1 positions;
         material = MeshPhongMaterial c None 5 True
     in alloc (new_object (Mesh geometry material)) s1)"

text \<open>
  \<^verbatim>\<open>earthData.data.distance + 1.8\<close> is NaN when the property is absent; the reals of
  the model have no NaN, so that case is \<open>None\<close>. The registry passed by
  \<^verbatim>\<open>createSolarSystem\<close> holds catalog entries only.
\<close>

definition createAsteroids ::
  "(nat \<Rightarrow> real) \<Rightarrow> (real \<Rightarrow> nat \<Rightarrow> real list) \<Rightarrow> Body \<Rightarrow> State \<Rightarrow> State option" where
  "createAsteroids rnd ico earthData s =
    (let earthOrbitGroup = orbitGroup earthData;
         meteorName = ''Halley'';
         (asteroid, s1) = createAsteroidMesh rnd ico 11393254 0.2 s
     in case data_distance (data earthData) of
          None \<Rightarrow> None
        | Some earthDistance \<Rightarrow>
          (let s2 = modify asteroid (set_position_x (earthDistance + 1.8)) s1;
               s3 = modify asteroid (\<lambda>ob. ob\<lparr>parent := Obj earthOrbitGroup\<rparr>) s2
           in Some (s3\<lparr>planets := planets s3 @
                [\<lparr>mesh = asteroid, orbitGroup = earthOrbitGroup,
                  data = Meteor meteorName 0.03 0.08 True\<rparr>]\<rparr>)))"

text \<open>\<^verbatim>\<open>planets.find(p => p.data.name === 'Earth')\<close>: the first match, if any.\<close>

definition findEarth :: "Body list \<Rightarrow> Body option" where
  "findEarth ps = find (\<lambda>p. data_name (data p) = ''Earth'') ps"

definition createSolarSystem ::
  "(nat \<Rightarrow> real) \<Rightarrow> (real \<Rightarrow> nat \<Rightarrow> real list) \<Rightarrow> BodyDescriptor list \<Rightarrow> State \<Rightarrow> State option" where
  "createSolarSystem rnd ico catalog s =
    (let s1 = fold (buildEntry rnd) catalog s
     in case findEarth (planets s1) of
          Some earth \<Rightarrow> createAsteroids rnd ico earth s1
        | None \<Rightarrow> Some s1)"

text \<open>
  \<^verbatim>\<open>init\<close>, from the call of \<^verbatim>\<open>createSolarSystem\<close> on: the target of the controls is
  put on the Earth's world position when the registry has an Earth.
\<close>

definition init ::
  "(nat \<Rightarrow> real) \<Rightarrow> (real \<Rightarrow> nat \<Rightarrow> real list) \<Rightarrow> BodyDescriptor list \<Rightarrow> State option" where
  "init rnd ico catalog =
    (case createSolarSystem rnd ico catalog initial of
       None \<Rightarrow> None
     | Some s \<Rightarrow>
        (case findEarth (planets s) of
           None \<Rightarrow> Some s
         | Some earthBody \<Rightarrow>
            (case getWorldPosition (objects s) (mesh earthBody) of
               None \<Rightarrow> Some s
             | Some p \<Rightarrow> Some (s\<lparr>controls_target := p\<rparr>))))"

subsection \<open>The animation driver\<close>

text \<open>
  The callback of \<^verbatim>\<open>planets.forEach\<close> in \<^verbatim>\<open>animate\<close>: the mesh spins, and the orbit
  group turns when \<^verbatim>\<open>data.distance > 0\<close>.
\<close>

definition updateBody :: "real \<Rightarrow> Body \<Rightarrow> State \<Rightarrow> State" where
  "updateBody delta body s =
    (let d = data body;
         m = mesh body;
         s1 = modify m (\<lambda>ob. ob\<lparr>rotation_y := rotation_y ob + data_rotationSpeed d * delta * 5\<rparr>) s
     in if js_gt0 (data_distance d) then
          modify (orbitGroup body)
            (\<lambda>ob. ob\<lparr>rotation_y := rotation_y ob + data_orbitSpeed d * delta * 5\<rparr>) s1
        else s1)"

text \<open>
  One frame with elapsed time \<open>delta\<close>, up to the write of the target of the controls.
  \<^verbatim>\<open>controls.update()\<close> and \<^verbatim>\<open>renderer.render\<close> belong to the library and move only
  the camera. When the world position does not exist (see \<open>localToWorld\<close>) the frame
  ends after the updates of the bodies.
\<close>

definition animate :: "real \<Rightarrow> State \<Rightarrow> State" where
  "animate delta s =
    (let s1 = fold (updateBody delta) (planets s) s
     in case findEarth (planets s1) of
          None \<Rightarrow> s1
        | Some earthBody \<Rightarrow>
           (case getWorldPosition (objects s1) (mesh earthBody) of
              None \<Rightarrow> s1
            | Some p \<Rightarrow> s1\<lparr>earthTarget := p, controls_target := p\<rparr>))"

text \<open>A run of frames, with the elapsed times in order.\<close>

definition frames :: "real list \<Rightarrow> State \<Rightarrow> State" where
  "frames deltas s = fold animate deltas s"

section \<open>Auxiliary definitions for the proofs\<close>

text \<open>
  \<^verbatim>\<open>data.isAsteroid\<close>: set on the meteor's literal only, absent (falsy) on a catalog
  entry.
\<close>

fun isAsteroid :: "BodyData \<Rightarrow> bool" where
  "isAsteroid (Catalog d) = False"
| "isAsteroid (Meteor n os rs a) = a"

text \<open>\<^verbatim>\<open>geometry.attributes.position.array\<close> of a mesh built on an icosahedron.\<close>

definition positionArray :: "Object3D \<Rightarrow> real list" where
  "positionArray ob =
     (case kind ob of
        Mesh (IcosahedronGeometry r detail ps) m \<Rightarrow> ps
      | _ \<Rightarrow> [])"

text \<open>The world positions of the vertices of a line built from points.\<close>

fun worldVertices :: "Object3D list \<Rightarrow> nat \<Rightarrow> Vector3 option list" where
  "worldVertices objs i =
     (case kind (objs ! i) of
        LineLoop (BufferGeometry pts) m \<Rightarrow> map (localToWorld (Suc (length objs)) objs i) pts
      | _ \<Rightarrow> [])"

text \<open>\<^verbatim>\<open>Vector3.length()\<close>: the Euclidean length.\<close>

fun vlength :: "Vector3 \<Rightarrow> real" where
  "vlength (x, y, z) = sqrt (x * x + y * y + z * z)"

text \<open>
  The position array after the first \<open>m\<close> rounds of the deformation loop, when \<open>k\<close>
  random numbers were drawn before the loop: coordinate \<open>j\<close> has received the draw
  number \<open>k + j\<close>.
\<close>

definition displaced :: "(nat \<Rightarrow> real) \<Rightarrow> real \<Rightarrow> nat \<Rightarrow> real list \<Rightarrow> nat \<Rightarrow> real list" where
  "displaced rnd sz k ps m =
     map (\<lambda>j. if j < 3 * m then ps ! j + (rnd (k + j) - 0.5) * 0.1 * sz else ps ! j)
       [0..<length ps]"

text \<open>
  The six objects that \<^verbatim>\<open>createSolarSystem\<close> builds from \<open>solarData\<close>, with the
  angles about the vertical axis as parameters, and the registry of three bodies.
\<close>

definition sunMesh :: "real \<Rightarrow> Object3D" where
  "sunMesh a = \<lparr>kind = Mesh (SphereGeometry (3.5 * 0.5) 32 32)
                       (MeshBasicMaterial 16766720 (Some 16769088) 1),
     obj_name = ''Sun'', parent = Obj 1, position = (0, 0, 0), rotation_x = 0, rotation_y = a\<rparr>"

definition pivot :: "real \<Rightarrow> Object3D" where
  "pivot g = \<lparr>kind = Group, obj_name = [], parent = Scene, position = (0, 0, 0),
     rotation_x = 0, rotation_y = g\<rparr>"

definition earthMesh :: "real \<Rightarrow> Object3D" where
  "earthMesh b = \<lparr>kind = Mesh (SphereGeometry (1.0 * 0.5) 32 32)
                       (MeshPhongMaterial 30719 (Some 3355443) 15 False),
     obj_name = ''Earth'', parent = Obj 3, position = (11, 0, 0), rotation_x = 0, rotation_y = b\<rparr>"

definition orbitLine :: Object3D where
  "orbitLine = \<lparr>kind = LineLoop (BufferGeometry (orbitPoints 11 64)) (LineBasicMaterial 4473924 1),
     obj_name = [], parent = Scene, position = (0, 0, 0), rotation_x = pi / 2, rotation_y = 0\<rparr>"

definition meteorMesh :: "(nat \<Rightarrow> real) \<Rightarrow> (real \<Rightarrow> nat \<Rightarrow> real list) \<Rightarrow> real \<Rightarrow> Object3D" where
  "meteorMesh rnd ico c = \<lparr>kind = Mesh (IcosahedronGeometry 0.2 1
        (displaced rnd 0.2 2 (ico 0.2 1) (nat \<lceil>real (length (ico 0.2 1)) / 3\<rceil>)))
        (MeshPhongMaterial 11393254 None 5 True),
     obj_name = [], parent = Obj 3, position = (11 + 1.8, 0, 0), rotation_x = 0, rotation_y = c\<rparr>"

definition registry :: "Body list" where
  "registry = [\<lparr>mesh = 0, orbitGroup = 1, data = Catalog (solarData ! 0)\<rparr>,
               \<lparr>mesh = 2, orbitGroup = 3, data = Catalog (solarData ! 1)\<rparr>,
               \<lparr>mesh = 5, orbitGroup = 3, data = Meteor ''Halley'' 0.03 0.08 True\<rparr>]"

definition sceneAt ::
  "(nat \<Rightarrow> real) \<Rightarrow> (real \<Rightarrow> nat \<Rightarrow> real list) \<Rightarrow> real \<Rightarrow> real \<Rightarrow> real \<Rightarrow> real \<Rightarrow> Vector3 \<Rightarrow> Vector3 \<Rightarrow> State" where
  "sceneAt rnd ico a b c g t e =
    \<lparr>objects = [sunMesh a, pivot (rnd 0 * pi * 2), earthMesh b, pivot g, orbitLine,
                meteorMesh rnd ico c],
     planets = registry, controls_target = t, earthTarget = e,
     drawn = 2 + 3 * nat \<lceil>real (length (ico 0.2 1)) / 3\<rceil>\<rparr>"

text \<open>
  A concrete run for the instances below: every random number is 0 and the library's
  icosahedron is replaced by an empty position array.
\<close>

definition sample :: State where
  "sample = sceneAt (\<lambda>n. 0) (\<lambda>sz detail. []) 0 0 0 0 (11, 0, 0) (0, 0, 0)"

text \<open>
  The objects and the registry for any catalog. An entry appends its mesh and its orbit
  group to the store, and a ring when its distance is positive; the meteor appends one
  mesh under the orbit group of the Earth.
\<close>

definition bodyMesh :: "BodyDescriptor \<Rightarrow> nat \<Rightarrow> Object3D" where
  "bodyMesh d g =
     \<lparr>kind = Mesh (SphereGeometry (radius d * SOLAR_SYSTEM_SCALE) 32 32)
               (if name d = ''Sun'' then MeshBasicMaterial (color d) (emissive d) 1
                else MeshPhongMaterial (color d) (Some 3355443) 15 False),
      obj_name = name d, parent = Obj g, position = (distance d, 0, 0),
      rotation_x = 0, rotation_y = 0\<rparr>"

definition ringOf :: "real \<Rightarrow> Object3D" where
  "ringOf r =
     \<lparr>kind = LineLoop (BufferGeometry (orbitPoints r 64)) (LineBasicMaterial 4473924 1),
      obj_name = [], parent = Scene, position = (0, 0, 0), rotation_x = pi / 2, rotation_y = 0\<rparr>"

definition entryObjects :: "(nat \<Rightarrow> real) \<Rightarrow> BodyDescriptor \<Rightarrow> nat \<Rightarrow> nat \<Rightarrow> Object3D list" where
  "entryObjects rnd d n k =
     [bodyMesh d (Suc n), pivot (rnd k * pi * 2)] @
     (if distance d > 0 then [ringOf (distance d)] else [])"

definition meteorObject ::
  "(nat \<Rightarrow> real) \<Rightarrow> (real \<Rightarrow> nat \<Rightarrow> real list) \<Rightarrow> nat \<Rightarrow> nat \<Rightarrow> real \<Rightarrow> Object3D" where
  "meteorObject rnd ico k g x =
     \<lparr>kind = Mesh (IcosahedronGeometry 0.2 1
         (displaced rnd 0.2 k (ico 0.2 1) (nat \<lceil>real (length (ico 0.2 1)) / 3\<rceil>)))
         (MeshPhongMaterial 11393254 None 5 True),
      obj_name = [], parent = Obj g, position = (x, 0, 0), rotation_x = 0, rotation_y = 0\<rparr>"

definition meteorBody :: "nat \<Rightarrow> nat \<Rightarrow> Body" where
  "meteorBody m g = \<lparr>mesh = m, orbitGroup = g, data = Meteor ''Halley'' 0.03 0.08 True\<rparr>"

text \<open>
  The angle that one second of frames adds to object \<open>i\<close>: the spin of every body whose
  mesh it is, and the orbit speed of every body with a positive distance whose orbit
  group it is, both times 5.
\<close>

definition bodyRate :: "Body \<Rightarrow> nat \<Rightarrow> real" where
  "bodyRate b i =
     (if mesh b = i then data_rotationSpeed (data b) * 5 else 0) +
     (if js_gt0 (data_distance (data b)) \<and> orbitGroup b = i
      then data_orbitSpeed (data b) * 5 else 0)"

definition rate :: "Body list \<Rightarrow> nat \<Rightarrow> real" where
  "rate ps i = sum_list (map (\<lambda>b. bodyRate b i) ps)"

definition turned :: "real \<Rightarrow> Object3D \<Rightarrow> Object3D" where
  "turned a ob = ob\<lparr>rotation_y := rotation_y ob + a\<rparr>"

text \<open>
  The invariant of construction. A body is placed when its mesh hangs under its orbit
  group on the x axis and the group is a group at the origin under the scene root,
  turned about the vertical axis only. A store and a registry are well built when the
  meshes of the bodies are pairwise distinct, the orbit groups of the bodies with a
  distance are pairwise distinct, no mesh is an orbit group, every body is placed, and
  every line hangs under the scene root.
\<close>

definition isMesh :: "Object3D \<Rightarrow> bool" where
  "isMesh ob = (case kind ob of Mesh g m \<Rightarrow> True | _ \<Rightarrow> False)"

definition isLine :: "Object3D \<Rightarrow> bool" where
  "isLine ob = (case kind ob of LineLoop g m \<Rightarrow> True | _ \<Rightarrow> False)"

definition placed :: "Object3D list \<Rightarrow> Body \<Rightarrow> bool" where
  "placed objs b \<longleftrightarrow>
     mesh b < length objs \<and> orbitGroup b < length objs \<and>
     isMesh (objs ! mesh b) \<and> parent (objs ! mesh b) = Obj (orbitGroup b) \<and>
     snd (position (objs ! mesh b)) = (0, 0) \<and>
     kind (objs ! orbitGroup b) = Group \<and> parent (objs ! orbitGroup b) = Scene \<and>
     position (objs ! orbitGroup b) = (0, 0, 0) \<and> rotation_x (objs ! orbitGroup b) = 0 \<and>
     (case data_distance (data b) of
        Some d \<Rightarrow> position (objs ! mesh b) = (d, 0, 0)
      | None \<Rightarrow> True)"

definition wellBuilt :: "Object3D list \<Rightarrow> Body list \<Rightarrow> bool" where
  "wellBuilt objs ps \<longleftrightarrow>
     distinct (map mesh ps) \<and>
     distinct (map orbitGroup (filter (\<lambda>b. data_distance (data b) \<noteq> None) ps)) \<and>
     list_all (\<lambda>b. list_all (\<lambda>b'. mesh b \<noteq> orbitGroup b') ps) ps \<and>
     list_all (placed objs) ps \<and>
     list_all (\<lambda>ob. isLine ob \<longrightarrow> parent ob = Scene) objs"

section \<open>Lemmas\<close>

subsection \<open>The deformation loop\<close>

lemma length_displaced [simp]: "length (displaced rnd sz k ps m) = length ps"
  by (simp add: displaced_def)

lemma nth_displaced:
  "j < length ps \<Longrightarrow> displaced rnd sz k ps m ! j =
     (if j < 3 * m then ps ! j + (rnd (k + j) - 0.5) * 0.1 * sz else ps ! j)"
  by (simp add: displaced_def)

lemma deformVertex_displaced:
  "deformVertex rnd sz m (displaced rnd sz k ps m, s\<lparr>drawn := k + 3 * m\<rparr>) =
     (displaced rnd sz k ps (Suc m), s\<lparr>drawn := k + 3 * Suc m\<rparr>)"
proof -
  have "(displaced rnd sz k ps m)
          [m * 3 := displaced rnd sz k ps m ! (m * 3) + (rnd (k + 3 * m) - 0.5) * 0.1 * sz,
           m * 3 + 1 := displaced rnd sz k ps m ! (m * 3 + 1) + (rnd (Suc (k + 3 * m)) - 0.5) * 0.1 * sz,
           m * 3 + 2 := displaced rnd sz k ps m ! (m * 3 + 2) + (rnd (Suc (Suc (k + 3 * m))) - 0.5) * 0.1 * sz]
        = displaced rnd sz k ps (Suc m)" (is "?l = ?r")
  proof (rule nth_equalityI)
    show "length ?l = length ?r" by simp
  next
    fix j assume "j < length ?l"
    then have j: "j < length ps" by simp
    consider "j < 3 * m" | "j = 3 * m" | "j = 3 * m + 1" | "j = 3 * m + 2" | "j > 3 * m + 2"
      by linarith
    then show "?l ! j = ?r ! j"
    proof cases
      case 1 with j show ?thesis by (simp add: nth_displaced nth_list_update)
    next
      case 2 with j show ?thesis by (simp add: nth_displaced nth_list_update mult.commute)
    next
      case 3 with j show ?thesis by (simp add: nth_displaced nth_list_update mult.commute)
    next
      case 4 with j show ?thesis by (simp add: nth_displaced nth_list_update mult.commute add.commute)
    next
      case 5 with j show ?thesis by (simp add: nth_displaced nth_list_update)
    qed
  qed
  then show ?thesis
    by (simp add: deformVertex_def Math_random_def Let_def)
qed

lemma fold_deformVertex:
  "fold (deformVertex rnd sz) [0..<m] (ps, s) =
     (displaced rnd sz (drawn s) ps m, s\<lparr>drawn := drawn s + 3 * m\<rparr>)"
proof (induction m)
  case 0
  show ?case by (simp add: displaced_def map_nth)
next
  case (Suc m)
  show ?case
    using deformVertex_displaced [of rnd sz m "drawn s" ps s]
    by (simp add: Suc)
qed

lemma deformPositions_eq:
  "deformPositions rnd sz ps s =
     (displaced rnd sz (drawn s) ps (nat \<lceil>real (length ps) / 3\<rceil>),
      s\<lparr>drawn := drawn s + 3 * nat \<lceil>real (length ps) / 3\<rceil>\<rparr>)"
  by (simp add: deformPositions_def fold_deformVertex Let_def)

subsection \<open>The scene built from the catalog of the script\<close>

lemma fold_solarData:
  "fold (buildEntry rnd) solarData initial =
    \<lparr>objects = [sunMesh 0, pivot (rnd 0 * pi * 2), earthMesh 0, pivot (rnd 1 * pi * 2), orbitLine],
     planets = butlast registry, controls_target = (0, 0, 0), earthTarget = (0, 0, 0), drawn = 2\<rparr>"
  by (simp add: solarData_def initial_def buildEntry_def createBody_def alloc_def modify_def
      Math_random_def new_object_def set_position_x_def Let_def SOLAR_SYSTEM_SCALE_def
      sunMesh_def pivot_def earthMesh_def orbitLine_def registry_def)

lemma createSolarSystem_solarData:
  "createSolarSystem rnd ico solarData initial =
     Some (sceneAt rnd ico 0 0 0 (rnd 1 * pi * 2) (0, 0, 0) (0, 0, 0))"
  unfolding createSolarSystem_def fold_solarData
  by (simp add: Let_def findEarth_def registry_def solarData_def createAsteroids_def
      createAsteroidMesh_def deformPositions_eq alloc_def modify_def new_object_def
      set_position_x_def sceneAt_def meteorMesh_def)

lemma earth_world:
  "getWorldPosition [sunMesh a, pivot g0, earthMesh b, pivot g, orbitLine, meteorMesh rnd ico c] 2
     = Some (rotateY g (11, 0, 0))"
  by (simp add: getWorldPosition_def earthMesh_def pivot_def applyLocal_def)

lemma findEarth_registry: "findEarth registry = Some (registry ! 1)"
  by (simp add: findEarth_def registry_def solarData_def)

lemma updates_sceneAt:
  "fold (updateBody delta) registry (sceneAt rnd ico a b c g t e) =
     sceneAt rnd ico (a + 0.005 * delta * 5) (b + 0.03 * delta * 5) (c + 0.08 * delta * 5)
       (g + 0.018 * delta * 5) t e"
  by (simp add: registry_def solarData_def updateBody_def modify_def sceneAt_def Let_def
      sunMesh_def earthMesh_def pivot_def meteorMesh_def)

lemma animate_sceneAt:
  "animate delta (sceneAt rnd ico a b c g t e) =
     sceneAt rnd ico (a + 0.005 * delta * 5) (b + 0.03 * delta * 5) (c + 0.08 * delta * 5)
       (g + 0.018 * delta * 5)
       (rotateY (g + 0.018 * delta * 5) (11, 0, 0)) (rotateY (g + 0.018 * delta * 5) (11, 0, 0))"
proof -
  have p: "planets (sceneAt rnd ico a b c g t e) = registry" for a b c g t e
    by (simp add: sceneAt_def)
  have o: "objects (sceneAt rnd ico a b c g t e) =
      [sunMesh a, pivot (rnd 0 * pi * 2), earthMesh b, pivot g, orbitLine, meteorMesh rnd ico c]" for a b c g t e
    by (simp add: sceneAt_def)
  have m: "mesh (registry ! 1) = 2" by (simp add: registry_def)
  show ?thesis
    unfolding animate_def Let_def p updates_sceneAt findEarth_registry o option.case m earth_world
    by (simp add: sceneAt_def)
qed

lemma init_solarData:
  "init rnd ico solarData =
     Some (sceneAt rnd ico 0 0 0 (rnd 1 * pi * 2) (rotateY (rnd 1 * pi * 2) (11, 0, 0)) (0, 0, 0))"
proof -
  have p: "planets (sceneAt rnd ico a b c g t e) = registry" for a b c g t e
    by (simp add: sceneAt_def)
  have o: "objects (sceneAt rnd ico a b c g t e) =
      [sunMesh a, pivot (rnd 0 * pi * 2), earthMesh b, pivot g, orbitLine, meteorMesh rnd ico c]" for a b c g t e
    by (simp add: sceneAt_def)
  have m: "mesh (registry ! 1) = 2" by (simp add: registry_def)
  show ?thesis
    unfolding init_def createSolarSystem_solarData option.case p findEarth_registry o m earth_world
    by (simp add: sceneAt_def)
qed

lemma frames_sceneAt:
  "frames ds (sceneAt rnd ico a b c g t e) =
     sceneAt rnd ico (a + 0.005 * sum_list ds * 5) (b + 0.03 * sum_list ds * 5)
       (c + 0.08 * sum_list ds * 5) (g + 0.018 * sum_list ds * 5)
       (if ds = [] then t else rotateY (g + 0.018 * sum_list ds * 5) (11, 0, 0))
       (if ds = [] then e else rotateY (g + 0.018 * sum_list ds * 5) (11, 0, 0))"
proof (induction ds arbitrary: a b c g t e)
  case Nil
  show ?case by (simp add: frames_def)
next
  case (Cons d ds)
  let ?S = "sum_list ds"
  have step: "frames (d # ds) s = frames ds (animate d s)" for s
    by (simp add: frames_def)
  have e1: "a + 0.005 * d * 5 + 0.005 * ?S * 5 = a + 0.005 * sum_list (d # ds) * 5"
    by (simp add: algebra_simps)
  have e2: "b + 0.03 * d * 5 + 0.03 * ?S * 5 = b + 0.03 * sum_list (d # ds) * 5"
    by (simp add: algebra_simps)
  have e3: "c + 0.08 * d * 5 + 0.08 * ?S * 5 = c + 0.08 * sum_list (d # ds) * 5"
    by (simp add: algebra_simps)
  have e4: "g + 0.018 * d * 5 + 0.018 * ?S * 5 = g + 0.018 * sum_list (d # ds) * 5"
    by (simp add: algebra_simps)
  have t: "(if ds = [] then rotateY (g + 0.018 * d * 5) v
            else rotateY (g + 0.018 * sum_list (d # ds) * 5) v) =
           rotateY (g + 0.018 * sum_list (d # ds) * 5) v" for v
  proof (cases "ds = []")
    case True
    then have "g + 0.018 * d * 5 = g + 0.018 * sum_list (d # ds) * 5" by simp
    with True show ?thesis by (simp only: refl if_True)
  next
    case False
    then show ?thesis by (simp only: if_False)
  qed
  show ?case
    unfolding step animate_sceneAt Cons.IH e1 e2 e3 e4 t
    by (simp only: list.distinct if_False)
qed

lemma planets_sceneAt: "planets (sceneAt rnd ico a b c g t e) = registry"
  by (simp add: sceneAt_def)

lemma objects_sceneAt:
  "objects (sceneAt rnd ico a b c g t e) =
     [sunMesh a, pivot (rnd 0 * pi * 2), earthMesh b, pivot g, orbitLine, meteorMesh rnd ico c]"
  by (simp add: sceneAt_def)

lemma rotation_y_parts:
  "rotation_y (sunMesh a) = a" "rotation_y (earthMesh b) = b" "rotation_y (pivot g) = g"
  "rotation_y (meteorMesh rnd ico c) = c"
  by (simp_all add: sunMesh_def earthMesh_def pivot_def meteorMesh_def)

lemma reached:
  assumes "init rnd ico solarData = Some s0"
  shows "\<exists>a b c g t e. frames ds s0 = sceneAt rnd ico a b c g t e"
proof -
  from assms have "s0 = sceneAt rnd ico 0 0 0 (rnd 1 * pi * 2) (rotateY (rnd 1 * pi * 2) (11, 0, 0)) (0, 0, 0)"
    unfolding init_solarData by (simp only: option.inject)
  then show ?thesis
    by (simp only: frames_sceneAt) blast
qed

lemma init_sample: "init (\<lambda>n. 0) (\<lambda>sz detail. []) solarData = Some sample"
  by (simp add: init_solarData sample_def)

lemma frames_Nil: "s = frames [] s"
  by (simp add: frames_def)

lemma planets_sample: "planets sample = registry"
  by (simp add: sample_def planets_sceneAt)

lemma init_shape:
  assumes "init rnd ico solarData = Some s0"
  shows "s0 = sceneAt rnd ico 0 0 0 (rnd 1 * pi * 2) (rotateY (rnd 1 * pi * 2) (11, 0, 0)) (0, 0, 0)"
  using assms unfolding init_solarData by (simp only: option.inject)

lemma vlength_rotateY: "vlength (rotateY t (r, 0, 0)) = \<bar>r\<bar>"
proof -
  have "cos t * r * (cos t * r) + sin t * r * (sin t * r) =
          r * r * (cos t * cos t + sin t * sin t)"
    by algebra
  then have "cos t * r * (cos t * r) + sin t * r * (sin t * r) = r * r"
    by (simp only: sin_cos_squared_add3 mult_1_right)
  then show ?thesis
    by simp
qed

lemma kind_parts:
  "kind (sunMesh a) = Mesh (SphereGeometry (3.5 * 0.5) 32 32)
                       (MeshBasicMaterial 16766720 (Some 16769088) 1)"
  "kind (earthMesh b) = Mesh (SphereGeometry (1.0 * 0.5) 32 32)
                       (MeshPhongMaterial 30719 (Some 3355443) 15 False)"
  "kind (pivot g) = Group"
  "kind orbitLine = LineLoop (BufferGeometry (orbitPoints 11 64)) (LineBasicMaterial 4473924 1)"
  "kind (meteorMesh rnd ico c) = Mesh (IcosahedronGeometry 0.2 1
        (displaced rnd 0.2 2 (ico 0.2 1) (nat \<lceil>real (length (ico 0.2 1)) / 3\<rceil>)))
        (MeshPhongMaterial 11393254 None 5 True)"
  by (simp_all add: sunMesh_def earthMesh_def pivot_def orbitLine_def meteorMesh_def)

lemma worldVertices_orbitLine:
  "worldVertices [sunMesh a, pivot g0, earthMesh b, pivot g, orbitLine, meteorMesh rnd ico c] 4 =
     map (\<lambda>p. Some (applyLocal orbitLine p)) (orbitPoints 11 64)"
proof -
  have "parent orbitLine = Scene" by (simp add: orbitLine_def)
  then show ?thesis
    by (simp add: kind_parts)
qed

lemma orbitPoints_16: "orbitPoints 11 64 ! 16 = (0, 0, 11)"
proof -
  have "[0..<Suc 64] ! 16 = 16" by (simp only: nth_upt)
  then show ?thesis
    by (simp add: orbitPoints_def Let_def)
qed

lemma length_orbitPoints: "length (orbitPoints r n) = Suc n"
  by (simp add: orbitPoints_def)

lemma orbitPoints_closed: "orbitPoints r 64 ! 64 = orbitPoints r 64 ! 0"
proof -
  have "[0..<Suc 64] ! 64 = 64" "[0..<Suc 64] ! 0 = 0" by (simp_all only: nth_upt)
  then show ?thesis
    by (simp add: orbitPoints_def Let_def)
qed

lemma parent_parts:
  "parent (sunMesh a) = Obj 1" "parent (earthMesh b) = Obj 3" "parent (pivot g) = Scene"
  "parent orbitLine = Scene" "parent (meteorMesh rnd ico c) = Obj 3"
  by (simp_all add: sunMesh_def earthMesh_def pivot_def orbitLine_def meteorMesh_def)

lemma rotation_x_pivot: "rotation_x (pivot g) = 0"
  by (simp add: pivot_def)

subsection \<open>The asteroid mesh\<close>

lemma less_three_ceiling:
  assumes "j < n"
  shows "j < 3 * nat \<lceil>real n / 3\<rceil>"
proof -
  define k where "k = \<lceil>real n / 3\<rceil>"
  have 1: "real n / 3 \<le> real_of_int k"
    unfolding k_def by (rule le_of_int_ceiling)
  have "(0::real) \<le> real n / 3" by simp
  with 1 have "(0::real) \<le> real_of_int k" by linarith
  then have 2: "0 \<le> k" by simp
  have "real n \<le> 3 * real_of_int k" using 1 by linarith
  also have "\<dots> = real (3 * nat k)" using 2 by simp
  finally have "n \<le> 3 * nat k" by (simp only: of_nat_le_iff)
  with assms show ?thesis unfolding k_def by simp
qed

lemma createAsteroidMesh_eq:
  "createAsteroidMesh rnd ico c sz s =
     (length (objects s),
      s\<lparr>drawn := drawn s + 3 * nat \<lceil>real (length (ico sz 1)) / 3\<rceil>,
        objects := objects s @
          [new_object (Mesh (IcosahedronGeometry sz 1
              (displaced rnd sz (drawn s) (ico sz 1) (nat \<lceil>real (length (ico sz 1)) / 3\<rceil>)))
              (MeshPhongMaterial c None 5 True))]\<rparr>)"
  by (simp add: createAsteroidMesh_def deformPositions_eq alloc_def Let_def)

lemma positionArray_new:
  "positionArray (new_object (Mesh (IcosahedronGeometry r d ps) m)) = ps"
  by (simp add: positionArray_def new_object_def)

lemma offset_bounds:
  assumes "0 \<le> u" "u < 1" "0 \<le> (sz::real)"
  shows "\<bar>(u - 0.5) * 0.1 * sz\<bar> \<le> 0.05 * sz"
proof -
  define w where "w = u * sz"
  have w: "0 \<le> w" "w \<le> sz"
    using assms mult_right_mono [of u 1 sz] by (simp_all add: w_def)
  have e: "(u - 0.5) * 0.1 * sz = w / 10 - sz / 20"
    by (simp add: w_def field_simps)
  have b: "\<bar>w / 10 - sz / 20\<bar> \<le> sz / 20"
    using w by linarith
  show ?thesis unfolding e using b by simp
qed

lemma offset_image:
  assumes "0 < (sz::real)"
  shows "(\<lambda>u. (u - 0.5) * 0.1 * sz) ` {0..<1} = {- 0.05 * sz..<0.05 * sz}"
proof (rule set_eqI, rule iffI)
  fix x assume "x \<in> (\<lambda>u. (u - 0.5) * 0.1 * sz) ` {0..<1}"
  then obtain u where u: "0 \<le> u" "u < 1" and x: "x = (u - 0.5) * 0.1 * sz" by auto
  define w where "w = u * sz"
  have w: "0 \<le> w" "w < sz"
    using u assms mult_strict_right_mono [of u 1 sz] by (simp_all add: w_def)
  have "x = w / 10 - sz / 20"
    unfolding x by (simp add: w_def field_simps)
  with w have "- (sz / 20) \<le> x" "x < sz / 20" by linarith+
  then show "x \<in> {- 0.05 * sz..<0.05 * sz}" by simp
next
  fix x assume "x \<in> {- 0.05 * sz..<0.05 * sz}"
  then have x: "- (sz / 20) \<le> x" "x < sz / 20" by simp_all
  define u where "u = x * 10 / sz + 1 / 2"
  have us: "u * sz = x * 10 + sz / 2"
    using assms by (simp add: u_def field_simps)
  have "0 \<le> u * sz" "u * sz < 1 * sz" using x unfolding us by linarith+
  then have "0 \<le> u" "u < 1"
    using assms by (simp_all add: zero_le_mult_iff)
  moreover have "(u - 0.5) * 0.1 * sz = x"
    using assms by (simp add: u_def field_simps)
  ultimately show "x \<in> (\<lambda>u. (u - 0.5) * 0.1 * sz) ` {0..<1}"
    by (intro image_eqI [of _ _ u]) simp_all
qed

lemma displaced_cong:
  assumes "\<And>j. j < length ps \<Longrightarrow> rnd' (k + j) = rnd (k + j)"
  shows "displaced rnd' sz k ps m = displaced rnd sz k ps m"
  using assms by (simp add: displaced_def)

lemma createAsteroidMesh_parts:
  assumes "createAsteroidMesh rnd ico c sz s = (m, s')"
  shows "m = length (objects s)"
    and "objects s' = objects s @
          [new_object (Mesh (IcosahedronGeometry sz 1
              (displaced rnd sz (drawn s) (ico sz 1) (nat \<lceil>real (length (ico sz 1)) / 3\<rceil>)))
              (MeshPhongMaterial c None 5 True))]"
    and "drawn s' = drawn s + 3 * nat \<lceil>real (length (ico sz 1)) / 3\<rceil>"
proof -
  from assms have 1: "m = fst (createAsteroidMesh rnd ico c sz s)"
    and 2: "s' = snd (createAsteroidMesh rnd ico c sz s)"
    by simp_all
  show "m = length (objects s)"
    unfolding 1 createAsteroidMesh_eq by simp
  show "objects s' = objects s @
          [new_object (Mesh (IcosahedronGeometry sz 1
              (displaced rnd sz (drawn s) (ico sz 1) (nat \<lceil>real (length (ico sz 1)) / 3\<rceil>)))
              (MeshPhongMaterial c None 5 True))]"
    unfolding 2 createAsteroidMesh_eq by simp
  show "drawn s' = drawn s + 3 * nat \<lceil>real (length (ico sz 1)) / 3\<rceil>"
    unfolding 2 createAsteroidMesh_eq by simp
qed

lemma positionArray_created:
  assumes "createAsteroidMesh rnd ico c sz s = (m, s')"
  shows "positionArray (objects s' ! m) =
           displaced rnd sz (drawn s) (ico sz 1) (nat \<lceil>real (length (ico sz 1)) / 3\<rceil>)"
  unfolding createAsteroidMesh_parts [OF assms]
  by (simp only: nth_append_length positionArray_new)

subsection \<open>What construction and frames leave alone\<close>

lemma modify_frame:
  "planets (modify i f s) = planets s" "controls_target (modify i f s) = controls_target s"
  "earthTarget (modify i f s) = earthTarget s" "drawn (modify i f s) = drawn s"
  by (simp_all add: modify_def)

lemma buildEntry_frame:
  "map data (planets (buildEntry rnd d s)) = map data (planets s) @ [Catalog d]"
  "controls_target (buildEntry rnd d s) = controls_target s"
  "earthTarget (buildEntry rnd d s) = earthTarget s"
  by (simp_all add: buildEntry_def createBody_def alloc_def Math_random_def Let_def modify_frame)

lemma fold_buildEntry_frame:
  "map data (planets (fold (buildEntry rnd) catalog s)) = map data (planets s) @ map Catalog catalog"
  "controls_target (fold (buildEntry rnd) catalog s) = controls_target s"
  "earthTarget (fold (buildEntry rnd) catalog s) = earthTarget s"
  by (induction catalog arbitrary: s) (simp_all add: buildEntry_frame)

lemma findEarth_None_iff:
  "findEarth ps = None \<longleftrightarrow> (\<forall>x\<in>set (map data ps). data_name x \<noteq> ''Earth'')"
  by (auto simp add: findEarth_def find_None_iff)

lemma updateBody_frame:
  "planets (updateBody delta b s) = planets s"
  "controls_target (updateBody delta b s) = controls_target s"
  "earthTarget (updateBody delta b s) = earthTarget s"
  "drawn (updateBody delta b s) = drawn s"
  by (simp_all add: updateBody_def Let_def modify_frame)

lemma fold_updateBody_frame:
  "planets (fold (updateBody delta) bs s) = planets s"
  "controls_target (fold (updateBody delta) bs s) = controls_target s"
  "earthTarget (fold (updateBody delta) bs s) = earthTarget s"
  "drawn (fold (updateBody delta) bs s) = drawn s"
  by (induction bs arbitrary: s) (simp_all add: updateBody_frame)

lemma animate_no_Earth:
  assumes "findEarth (planets s) = None"
  shows "animate delta s = fold (updateBody delta) (planets s) s"
  using assms by (simp add: animate_def Let_def fold_updateBody_frame)

lemma frames_no_Earth:
  assumes "findEarth (planets s) = None"
  shows "planets (frames ds s) = planets s \<and> controls_target (frames ds s) = controls_target s \<and>
         earthTarget (frames ds s) = earthTarget s"
  using assms
proof (induction ds arbitrary: s)
  case Nil
  show ?case by (simp add: frames_def)
next
  case (Cons d ds)
  have a: "animate d s = fold (updateBody d) (planets s) s"
    by (rule animate_no_Earth [OF Cons.prems])
  have p: "planets (animate d s) = planets s"
    "controls_target (animate d s) = controls_target s"
    "earthTarget (animate d s) = earthTarget s"
    unfolding a by (rule fold_updateBody_frame)+
  have "findEarth (planets (animate d s)) = None"
    unfolding p by (rule Cons.prems)
  from Cons.IH [OF this] show ?case
    unfolding p by (simp add: frames_def)
qed

subsection \<open>The sample run\<close>

lemma sample_bodies:
  "planets sample ! 0 \<in> set (planets sample)"
  "planets sample ! 1 \<in> set (planets sample)"
  "planets sample ! 2 \<in> set (planets sample)"
  by (simp_all add: planets_sample registry_def)

lemma sample_data:
  "data (planets sample ! 0) = Catalog (solarData ! 0)"
  "data (planets sample ! 1) = Catalog (solarData ! 1)"
  "data (planets sample ! 2) = Meteor ''Halley'' 0.03 0.08 True"
  by (simp_all add: planets_sample registry_def)

lemma sample_distances:
  "data_distance (data (planets sample ! 0)) = Some 0"
  "data_distance (data (planets sample ! 1)) = Some 11"
  "data_distance (data (planets sample ! 2)) = None"
  by (simp_all only: sample_data) (simp_all add: solarData_def)

subsection \<open>The effect of frames on the angles, in any state\<close>

lemma turned_0: "turned 0 ob = ob"
  by (simp add: turned_def)

lemma turned_turned: "turned a (turned b ob) = turned (b + a) ob"
  by (simp add: turned_def add.assoc)

lemma length_modify: "length (objects (modify i f s)) = length (objects s)"
  by (simp add: modify_def)

lemma nth_modify:
  "j < length (objects s) \<Longrightarrow>
     objects (modify i f s) ! j = (if j = i then f (objects s ! j) else objects s ! j)"
  by (simp add: modify_def nth_list_update)

lemma length_updateBody: "length (objects (updateBody delta b s)) = length (objects s)"
  by (simp add: updateBody_def Let_def length_modify)

lemma nth_updateBody:
  assumes "i < length (objects s)"
  shows "objects (updateBody delta b s) ! i = turned (bodyRate b i * delta) (objects s ! i)"
proof -
  let ?spin = "\<lambda>ob. ob\<lparr>rotation_y := rotation_y ob + data_rotationSpeed (data b) * delta * 5\<rparr>"
  let ?orbit = "\<lambda>ob. ob\<lparr>rotation_y := rotation_y ob + data_orbitSpeed (data b) * delta * 5\<rparr>"
  have 1: "objects (modify (mesh b) ?spin s) ! i =
             (if i = mesh b then ?spin (objects s ! i) else objects s ! i)"
    using assms by (rule nth_modify)
  have l: "i < length (objects (modify (mesh b) ?spin s))"
    using assms by (simp only: length_modify)
  have 2: "objects (modify (orbitGroup b) ?orbit (modify (mesh b) ?spin s)) ! i =
             (if i = orbitGroup b then ?orbit (objects (modify (mesh b) ?spin s) ! i)
              else objects (modify (mesh b) ?spin s) ! i)"
    using l by (rule nth_modify)
  show ?thesis
  proof (cases "js_gt0 (data_distance (data b))")
    case True
    then have u: "updateBody delta b s = modify (orbitGroup b) ?orbit (modify (mesh b) ?spin s)"
      by (simp add: updateBody_def Let_def)
    show ?thesis
      unfolding u 2 1 using True
      by (simp add: bodyRate_def turned_def algebra_simps)
  next
    case False
    then have u: "updateBody delta b s = modify (mesh b) ?spin s"
      by (simp add: updateBody_def Let_def)
    show ?thesis
      unfolding u 1 using False
      by (simp add: bodyRate_def turned_def algebra_simps)
  qed
qed

lemma length_fold_updateBody:
  "length (objects (fold (updateBody delta) bs s)) = length (objects s)"
  by (induction bs arbitrary: s) (simp_all add: length_updateBody)

lemma nth_fold_updateBody:
  assumes "i < length (objects s)"
  shows "objects (fold (updateBody delta) bs s) ! i = turned (rate bs i * delta) (objects s ! i)"
  using assms
proof (induction bs arbitrary: s)
  case Nil
  show ?case by (simp add: rate_def turned_0)
next
  case (Cons b bs)
  have l: "i < length (objects (updateBody delta b s))"
    using Cons.prems by (simp only: length_updateBody)
  have "objects (fold (updateBody delta) (b # bs) s) ! i =
          turned (rate bs i * delta) (objects (updateBody delta b s) ! i)"
    using Cons.IH [OF l] by simp
  also have "\<dots> = turned (rate bs i * delta) (turned (bodyRate b i * delta) (objects s ! i))"
    by (simp only: nth_updateBody [OF Cons.prems])
  also have "\<dots> = turned (rate (b # bs) i * delta) (objects s ! i)"
    by (simp add: turned_turned rate_def algebra_simps)
  finally show ?case .
qed

lemma objects_animate: "objects (animate delta s) = objects (fold (updateBody delta) (planets s) s)"
  by (simp add: animate_def Let_def split: option.split)

lemma planets_animate: "planets (animate delta s) = planets s"
  by (simp add: animate_def Let_def fold_updateBody_frame split: option.split)

lemma length_animate: "length (objects (animate delta s)) = length (objects s)"
  by (simp only: objects_animate length_fold_updateBody)

lemma nth_animate:
  "i < length (objects s) \<Longrightarrow>
     objects (animate delta s) ! i = turned (rate (planets s) i * delta) (objects s ! i)"
  by (simp only: objects_animate nth_fold_updateBody)

lemma planets_frames: "planets (frames ds s) = planets s"
  by (induction ds arbitrary: s) (simp_all add: frames_def planets_animate)

lemma length_frames: "length (objects (frames ds s)) = length (objects s)"
  by (induction ds arbitrary: s) (simp_all add: frames_def length_animate)

lemma nth_frames:
  assumes "i < length (objects s)"
  shows "objects (frames ds s) ! i = turned (rate (planets s) i * sum_list ds) (objects s ! i)"
  using assms
proof (induction ds arbitrary: s)
  case Nil
  show ?case by (simp add: frames_def turned_0)
next
  case (Cons d ds)
  have l: "i < length (objects (animate d s))"
    using Cons.prems by (simp only: length_animate)
  have "objects (frames (d # ds) s) ! i = objects (frames ds (animate d s)) ! i"
    by (simp add: frames_def)
  also have "\<dots> = turned (rate (planets s) i * sum_list ds) (objects (animate d s) ! i)"
    by (simp only: Cons.IH [OF l] planets_animate)
  also have "\<dots> = turned (rate (planets s) i * sum_list ds)
                      (turned (rate (planets s) i * d) (objects s ! i))"
    by (simp only: nth_animate [OF Cons.prems])
  also have "\<dots> = turned (rate (planets s) i * sum_list (d # ds)) (objects s ! i)"
    by (simp add: turned_turned algebra_simps)
  finally show ?case .
qed

subsection \<open>Construction from any catalog\<close>

lemma buildEntry_eq:
  "buildEntry rnd d s =
     s\<lparr>objects := objects s @ entryObjects rnd d (length (objects s)) (drawn s),
       planets := planets s @
         [\<lparr>mesh = length (objects s), orbitGroup = Suc (length (objects s)), data = Catalog d\<rparr>],
       drawn := Suc (drawn s)\<rparr>"
  by (simp add: buildEntry_def createBody_def alloc_def modify_def Math_random_def
      new_object_def set_position_x_def Let_def entryObjects_def bodyMesh_def pivot_def
      ringOf_def nth_append list_update_append)

lemma placed_append: "placed objs b \<Longrightarrow> placed (objs @ xs) b"
  by (simp add: placed_def nth_append split: option.splits)

lemma placed_range: "placed objs b \<Longrightarrow> mesh b < length objs \<and> orbitGroup b < length objs"
  by (simp add: placed_def)

lemma wellBuilt_Nil: "wellBuilt [] []"
  by (simp add: wellBuilt_def)

lemma entryObjects_lines:
  "list_all (\<lambda>ob. isLine ob \<longrightarrow> parent ob = Scene) (entryObjects rnd d n k)"
  by (simp add: entryObjects_def isLine_def bodyMesh_def pivot_def ringOf_def)

lemma placed_entry:
  "placed (objs @ entryObjects rnd d (length objs) k)
     \<lparr>mesh = length objs, orbitGroup = Suc (length objs), data = Catalog d\<rparr>"
  by (simp add: placed_def entryObjects_def nth_append isMesh_def bodyMesh_def pivot_def)

lemma wellBuilt_entry:
  assumes "wellBuilt objs ps"
  shows "wellBuilt (objs @ entryObjects rnd d (length objs) k)
           (ps @ [\<lparr>mesh = length objs, orbitGroup = Suc (length objs), data = Catalog d\<rparr>])"
proof -
  let ?b = "\<lparr>mesh = length objs, orbitGroup = Suc (length objs), data = Catalog d\<rparr>"
  let ?objs = "objs @ entryObjects rnd d (length objs) k"
  from assms have d1: "distinct (map mesh ps)"
    and d2: "distinct (map orbitGroup (filter (\<lambda>b. data_distance (data b) \<noteq> None) ps))"
    and d3: "list_all (\<lambda>b. list_all (\<lambda>b'. mesh b \<noteq> orbitGroup b') ps) ps"
    and d4: "list_all (placed objs) ps"
    and d5: "list_all (\<lambda>ob. isLine ob \<longrightarrow> parent ob = Scene) objs"
    by (simp_all add: wellBuilt_def)
  have r: "mesh b < length objs \<and> orbitGroup b < length objs" if "b \<in> set ps" for b
    using d4 that by (simp add: list_all_iff placed_range)
  have n1: "length objs \<notin> mesh ` set ps" "length objs \<notin> orbitGroup ` set ps"
    "Suc (length objs) \<notin> mesh ` set ps" "Suc (length objs) \<notin> orbitGroup ` set ps"
    using r by fastforce+
  have 1: "distinct (map mesh (ps @ [?b]))"
    using d1 n1 by simp
  have "Suc (length objs) \<notin> orbitGroup ` set (filter (\<lambda>b. data_distance (data b) \<noteq> None) ps)"
    using n1(4) by auto
  then have 2: "distinct (map orbitGroup (filter (\<lambda>b. data_distance (data b) \<noteq> None) (ps @ [?b])))"
    using d2 by simp
  have 3: "list_all (\<lambda>b. list_all (\<lambda>b'. mesh b \<noteq> orbitGroup b') (ps @ [?b])) (ps @ [?b])"
  proof -
    have "mesh b \<noteq> orbitGroup b'"
      if b: "b \<in> set (ps @ [?b])" and b': "b' \<in> set (ps @ [?b])" for b b'
    proof (cases "b \<in> set ps")
      case True
      note B = this
      show ?thesis
      proof (cases "b' \<in> set ps")
        case True
        with B d3 show ?thesis by (simp add: list_all_iff)
      next
        case False
        with b' have "b' = ?b" by simp
        then have "orbitGroup b' = Suc (length objs)" by simp
        with r [OF B] show ?thesis by simp
      qed
    next
      case False
      with b have "b = ?b" by simp
      then have m: "mesh b = length objs" by simp
      show ?thesis
      proof (cases "b' \<in> set ps")
        case True
        with r [OF True] m show ?thesis by simp
      next
        case False
        with b' have "b' = ?b" by simp
        then have "orbitGroup b' = Suc (length objs)" by simp
        with m show ?thesis by simp
      qed
    qed
    then show ?thesis by (simp only: list_all_iff) blast
  qed
  have 4: "list_all (placed ?objs) (ps @ [?b])"
    using d4 placed_entry [of objs rnd d k] by (simp add: list_all_iff placed_append)
  have 5: "list_all (\<lambda>ob. isLine ob \<longrightarrow> parent ob = Scene) ?objs"
    using d5 entryObjects_lines [of rnd d "length objs" k] by simp
  from 1 2 3 4 5 show ?thesis
    unfolding wellBuilt_def by (intro conjI)
qed

lemma wellBuilt_buildEntry:
  assumes "wellBuilt (objects s) (planets s)"
  shows "wellBuilt (objects (buildEntry rnd d s)) (planets (buildEntry rnd d s))"
  unfolding buildEntry_eq using wellBuilt_entry [OF assms] by simp

lemma wellBuilt_fold:
  assumes "wellBuilt (objects s) (planets s)"
  shows "wellBuilt (objects (fold (buildEntry rnd) catalog s))
           (planets (fold (buildEntry rnd) catalog s))"
  using assms by (induction catalog arbitrary: s) (simp_all add: wellBuilt_buildEntry)

lemma createAsteroids_eq:
  assumes "data_distance (data earth) = Some d"
  shows "createAsteroids rnd ico earth s =
     Some (s\<lparr>objects := objects s @ [meteorObject rnd ico (drawn s) (orbitGroup earth) (d + 1.8)],
            planets := planets s @ [meteorBody (length (objects s)) (orbitGroup earth)],
            drawn := drawn s + 3 * nat \<lceil>real (length (ico 0.2 1)) / 3\<rceil>\<rparr>)"
  using assms
  by (simp add: createAsteroids_def createAsteroidMesh_eq Let_def modify_def new_object_def
      set_position_x_def meteorObject_def meteorBody_def nth_append list_update_append)

lemma meteorBody_simps:
  "mesh (meteorBody m g) = m" "orbitGroup (meteorBody m g) = g"
  "data_distance (data (meteorBody m g)) = None" "isAsteroid (data (meteorBody m g))"
  "data_name (data (meteorBody m g)) = ''Halley''"
  by (simp_all add: meteorBody_def)

lemma placed_meteor:
  assumes "placed objs earth"
  shows "placed (objs @ [meteorObject rnd ico k (orbitGroup earth) x])
           (meteorBody (length objs) (orbitGroup earth))"
  using assms
  by (simp add: placed_def meteorBody_simps nth_append isMesh_def meteorObject_def)

lemma wellBuilt_meteor:
  assumes "wellBuilt objs ps" and e: "earth \<in> set ps"
  shows "wellBuilt (objs @ [meteorObject rnd ico k (orbitGroup earth) x])
           (ps @ [meteorBody (length objs) (orbitGroup earth)])"
proof -
  let ?b = "meteorBody (length objs) (orbitGroup earth)"
  let ?objs = "objs @ [meteorObject rnd ico k (orbitGroup earth) x]"
  from assms have d1: "distinct (map mesh ps)"
    and d2: "distinct (map orbitGroup (filter (\<lambda>b. data_distance (data b) \<noteq> None) ps))"
    and d3: "list_all (\<lambda>b. list_all (\<lambda>b'. mesh b \<noteq> orbitGroup b') ps) ps"
    and d4: "list_all (placed objs) ps"
    and d5: "list_all (\<lambda>ob. isLine ob \<longrightarrow> parent ob = Scene) objs"
    by (simp_all add: wellBuilt_def)
  have r: "mesh b < length objs \<and> orbitGroup b < length objs" if "b \<in> set ps" for b
    using d4 that by (simp add: list_all_iff placed_range)
  have "length objs \<notin> mesh ` set ps"
    using r by fastforce
  then have 1: "distinct (map mesh (ps @ [?b]))"
    using d1 by (simp add: meteorBody_simps)
  have 2: "distinct (map orbitGroup (filter (\<lambda>b. data_distance (data b) \<noteq> None) (ps @ [?b])))"
    using d2 by (simp add: meteorBody_simps)
  have 3: "list_all (\<lambda>b. list_all (\<lambda>b'. mesh b \<noteq> orbitGroup b') (ps @ [?b])) (ps @ [?b])"
  proof -
    have "mesh b \<noteq> orbitGroup b'"
      if b: "b \<in> set (ps @ [?b])" and b': "b' \<in> set (ps @ [?b])" for b b'
    proof -
      have g: "\<exists>c\<in>set ps. orbitGroup b' = orbitGroup c"
      proof (cases "b' \<in> set ps")
        case True
        then show ?thesis by blast
      next
        case False
        with b' have "b' = ?b" by simp
        then have "orbitGroup b' = orbitGroup earth" by (simp add: meteorBody_simps)
        with e show ?thesis by blast
      qed
      then obtain c where c: "c \<in> set ps" "orbitGroup b' = orbitGroup c" by blast
      show ?thesis
      proof (cases "b \<in> set ps")
        case True
        with c d3 show ?thesis by (simp add: list_all_iff)
      next
        case False
        with b have "b = ?b" by simp
        then have "mesh b = length objs" by (simp add: meteorBody_simps)
        with r [OF c(1)] c(2) show ?thesis by simp
      qed
    qed
    then show ?thesis by (simp only: list_all_iff) blast
  qed
  have "placed objs earth"
    using d4 e by (simp add: list_all_iff)
  then have 4: "list_all (placed ?objs) (ps @ [?b])"
    using d4 placed_meteor [of objs earth rnd ico k x] by (simp add: list_all_iff placed_append)
  have 5: "list_all (\<lambda>ob. isLine ob \<longrightarrow> parent ob = Scene) ?objs"
    using d5 by (simp add: isLine_def meteorObject_def)
  from 1 2 3 4 5 show ?thesis
    unfolding wellBuilt_def by (intro conjI)
qed

lemma findEarth_SomeD:
  "findEarth ps = Some earth \<Longrightarrow> earth \<in> set ps \<and> data_name (data earth) = ''Earth''"
  by (auto simp: findEarth_def find_Some_iff)

lemma built_catalog:
  "map data (planets (fold (buildEntry rnd) catalog initial)) = map Catalog catalog"
  by (simp add: fold_buildEntry_frame initial_def)

lemma built_body_distance:
  assumes "b \<in> set (planets (fold (buildEntry rnd) catalog initial))"
  shows "\<exists>d. data_distance (data b) = Some d"
proof -
  from assms have "data b \<in> set (map data (planets (fold (buildEntry rnd) catalog initial)))"
    by simp
  then have "data b \<in> Catalog ` set catalog"
    unfolding built_catalog by simp
  then show ?thesis by auto
qed

lemma wellBuilt_built:
  "wellBuilt (objects (fold (buildEntry rnd) catalog initial))
     (planets (fold (buildEntry rnd) catalog initial))"
  by (rule wellBuilt_fold) (simp add: initial_def wellBuilt_Nil)

lemma createSolarSystem_total:
  "\<exists>s. createSolarSystem rnd ico catalog initial = Some s \<and> wellBuilt (objects s) (planets s)"
proof (cases "findEarth (planets (fold (buildEntry rnd) catalog initial))")
  case None
  then show ?thesis
    using wellBuilt_built [of rnd catalog] by (simp add: createSolarSystem_def Let_def)
next
  case (Some earth)
  let ?s1 = "fold (buildEntry rnd) catalog initial"
  from Some have e: "earth \<in> set (planets ?s1)"
    by (simp add: findEarth_SomeD)
  then obtain d where d: "data_distance (data earth) = Some d"
    using built_body_distance by blast
  have "createSolarSystem rnd ico catalog initial = createAsteroids rnd ico earth ?s1"
    using Some by (simp add: createSolarSystem_def Let_def)
  then show ?thesis
    unfolding createAsteroids_eq [OF d]
    using wellBuilt_meteor [OF wellBuilt_built e]
    by simp
qed

lemma init_total:
  "\<exists>s. init rnd ico catalog = Some s \<and> wellBuilt (objects s) (planets s)"
proof -
  obtain s where s: "createSolarSystem rnd ico catalog initial = Some s"
    and w: "wellBuilt (objects s) (planets s)"
    using createSolarSystem_total by blast
  show ?thesis
    unfolding init_def s using w by (auto split: option.split)
qed

lemma init_wellBuilt:
  assumes "init rnd ico catalog = Some s"
  shows "wellBuilt (objects s) (planets s)"
  using init_total [of rnd ico catalog] assms by auto

subsection \<open>Angular rates in a constructed scene\<close>

lemma sum_list_none:
  assumes "\<And>x. x \<in> set ps \<Longrightarrow> f x = (0::real)"
  shows "sum_list (map f ps) = 0"
  using assms by (induction ps) simp_all

lemma sum_list_single:
  assumes "distinct ps" and "b \<in> set ps" and "\<And>x. x \<in> set ps \<Longrightarrow> x \<noteq> b \<Longrightarrow> f x = (0::real)"
  shows "sum_list (map f ps) = f b"
  using assms
proof (induction ps)
  case Nil
  then show ?case by simp
next
  case (Cons a ps)
  show ?case
  proof (cases "a = b")
    case True
    with Cons.prems(1) have "b \<notin> set ps" by simp
    with Cons.prems(3) have "\<And>x. x \<in> set ps \<Longrightarrow> f x = 0" by auto
    then have "sum_list (map f ps) = 0"
      by (rule sum_list_none)
    with True show ?thesis by simp
  next
    case False
    with Cons.prems have "f a = 0" "b \<in> set ps" "distinct ps" by auto
    with Cons.IH Cons.prems(3) show ?thesis by simp
  qed
qed

lemma wellBuilt_distinct: "wellBuilt objs ps \<Longrightarrow> distinct ps"
  by (simp add: wellBuilt_def distinct_map)

lemma wellBuilt_mesh_inj:
  "wellBuilt objs ps \<Longrightarrow> x \<in> set ps \<Longrightarrow> b \<in> set ps \<Longrightarrow> mesh x = mesh b \<Longrightarrow> x = b"
  by (auto simp: wellBuilt_def distinct_map dest: inj_onD)

lemma wellBuilt_mesh_orbit:
  "wellBuilt objs ps \<Longrightarrow> x \<in> set ps \<Longrightarrow> b \<in> set ps \<Longrightarrow> mesh x \<noteq> orbitGroup b"
  by (simp add: wellBuilt_def list_all_iff)

lemma wellBuilt_orbit_inj:
  assumes "wellBuilt objs ps" "x \<in> set ps" "b \<in> set ps"
    and "data_distance (data x) \<noteq> None" "data_distance (data b) \<noteq> None"
    and "orbitGroup x = orbitGroup b"
  shows "x = b"
proof -
  let ?cs = "filter (\<lambda>b. data_distance (data b) \<noteq> None) ps"
  from assms(1) have "inj_on orbitGroup (set ?cs)"
    by (simp add: wellBuilt_def distinct_map)
  moreover from assms have "x \<in> set ?cs" "b \<in> set ?cs" by simp_all
  ultimately show ?thesis
    using assms(6) by (auto dest: inj_onD)
qed

lemma wellBuilt_placed: "wellBuilt objs ps \<Longrightarrow> b \<in> set ps \<Longrightarrow> placed objs b"
  by (simp add: wellBuilt_def list_all_iff)

lemma js_gt0_Some: "js_gt0 v \<Longrightarrow> v \<noteq> None"
  by (cases v) simp_all

lemma rate_mesh:
  assumes w: "wellBuilt objs ps" and b: "b \<in> set ps"
  shows "rate ps (mesh b) = data_rotationSpeed (data b) * 5"
proof -
  have "bodyRate x (mesh b) = 0" if "x \<in> set ps" "x \<noteq> b" for x
    using that wellBuilt_mesh_inj [OF w that(1) b] wellBuilt_mesh_orbit [OF w b that(1)]
    by (auto simp: bodyRate_def)
  then have "rate ps (mesh b) = bodyRate b (mesh b)"
    unfolding rate_def using wellBuilt_distinct [OF w] b by (intro sum_list_single) auto
  also have "\<dots> = data_rotationSpeed (data b) * 5"
    using wellBuilt_mesh_orbit [OF w b b] by (simp add: bodyRate_def)
  finally show ?thesis .
qed

lemma rate_orbit:
  assumes w: "wellBuilt objs ps" and b: "b \<in> set ps" and g: "js_gt0 (data_distance (data b))"
  shows "rate ps (orbitGroup b) = data_orbitSpeed (data b) * 5"
proof -
  have "bodyRate x (orbitGroup b) = 0" if "x \<in> set ps" "x \<noteq> b" for x
  proof -
    have "mesh x \<noteq> orbitGroup b"
      by (rule wellBuilt_mesh_orbit [OF w that(1) b])
    moreover have "\<not> (js_gt0 (data_distance (data x)) \<and> orbitGroup x = orbitGroup b)"
      using wellBuilt_orbit_inj [OF w that(1) b] that(2) g js_gt0_Some by blast
    ultimately show ?thesis by (auto simp: bodyRate_def)
  qed
  then have "rate ps (orbitGroup b) = bodyRate b (orbitGroup b)"
    unfolding rate_def using wellBuilt_distinct [OF w] b by (intro sum_list_single) auto
  also have "\<dots> = data_orbitSpeed (data b) * 5"
    using wellBuilt_mesh_orbit [OF w b b] g by (simp add: bodyRate_def)
  finally show ?thesis .
qed

lemma rate_still:
  assumes w: "wellBuilt objs ps" and b: "b \<in> set ps"
    and g: "data_distance (data b) = Some d" "\<not> d > 0"
  shows "rate ps (orbitGroup b) = 0"
proof -
  have "bodyRate x (orbitGroup b) = 0" if "x \<in> set ps" for x
  proof -
    have "mesh x \<noteq> orbitGroup b"
      by (rule wellBuilt_mesh_orbit [OF w that b])
    moreover have "\<not> (js_gt0 (data_distance (data x)) \<and> orbitGroup x = orbitGroup b)"
    proof
      assume a: "js_gt0 (data_distance (data x)) \<and> orbitGroup x = orbitGroup b"
      then have "x = b"
        using wellBuilt_orbit_inj [OF w that b] g(1) js_gt0_Some by auto
      with a g show False by simp
    qed
    ultimately show ?thesis by (auto simp: bodyRate_def)
  qed
  then show ?thesis
    unfolding rate_def by (rule sum_list_none)
qed

lemma rate_line:
  assumes w: "wellBuilt objs ps" and i: "isLine (objs ! i)"
  shows "rate ps i = 0"
proof -
  have "bodyRate x i = 0" if "x \<in> set ps" for x
  proof -
    from wellBuilt_placed [OF w that]
    have "isMesh (objs ! mesh x)" "kind (objs ! orbitGroup x) = Group"
      by (simp_all add: placed_def)
    with i have "mesh x \<noteq> i" "orbitGroup x \<noteq> i"
      by (auto simp: isLine_def isMesh_def split: Kind.splits)
    then show ?thesis by (simp add: bodyRate_def)
  qed
  then show ?thesis
    unfolding rate_def by (rule sum_list_none)
qed

lemma findEarth_meteor: "findEarth (ps @ [meteorBody m g]) = findEarth ps"
  by (induction ps) (simp_all add: findEarth_def meteorBody_simps)

lemma createSolarSystem_cases:
  assumes "createSolarSystem rnd ico catalog initial = Some s"
  shows "(findEarth (planets s) = None \<and>
            planets s = planets (fold (buildEntry rnd) catalog initial) \<and>
            objects s = objects (fold (buildEntry rnd) catalog initial)) \<or>
         (\<exists>earth d. findEarth (planets s) = Some earth \<and>
            earth \<in> set (planets (fold (buildEntry rnd) catalog initial)) \<and>
            data_distance (data earth) = Some d \<and>
            planets s = planets (fold (buildEntry rnd) catalog initial) @
              [meteorBody (length (objects (fold (buildEntry rnd) catalog initial)))
                 (orbitGroup earth)] \<and>
            objects s = objects (fold (buildEntry rnd) catalog initial) @
              [meteorObject rnd ico (drawn (fold (buildEntry rnd) catalog initial))
                 (orbitGroup earth) (d + 1.8)])"
proof (cases "findEarth (planets (fold (buildEntry rnd) catalog initial))")
  case None
  with assms show ?thesis
    by (auto simp: createSolarSystem_def Let_def)
next
  case (Some earth)
  let ?s1 = "fold (buildEntry rnd) catalog initial"
  from Some have e: "earth \<in> set (planets ?s1)"
    by (simp add: findEarth_SomeD)
  then obtain d where d: "data_distance (data earth) = Some d"
    using built_body_distance by blast
  have "createSolarSystem rnd ico catalog initial = createAsteroids rnd ico earth ?s1"
    using Some by (simp add: createSolarSystem_def Let_def)
  with assms have s: "s = ?s1\<lparr>objects := objects ?s1 @
        [meteorObject rnd ico (drawn ?s1) (orbitGroup earth) (d + 1.8)],
      planets := planets ?s1 @ [meteorBody (length (objects ?s1)) (orbitGroup earth)],
      drawn := drawn ?s1 + 3 * nat \<lceil>real (length (ico 0.2 1)) / 3\<rceil>\<rparr>"
    unfolding createAsteroids_eq [OF d] by simp
  have "findEarth (planets s) = Some earth"
    unfolding s using Some by (simp add: findEarth_meteor)
  with e d s show ?thesis
    by auto
qed

lemma init_parts:
  assumes "init rnd ico catalog = Some s"
  shows "\<exists>s'. createSolarSystem rnd ico catalog initial = Some s' \<and>
           planets s = planets s' \<and> objects s = objects s'"
proof -
  obtain s' where s': "createSolarSystem rnd ico catalog initial = Some s'"
    using createSolarSystem_total by blast
  with assms show ?thesis
    unfolding init_def by (auto split: option.splits)
qed

lemma init_cases:
  assumes "init rnd ico catalog = Some s"
  shows "(findEarth (planets s) = None \<and>
            planets s = planets (fold (buildEntry rnd) catalog initial) \<and>
            objects s = objects (fold (buildEntry rnd) catalog initial)) \<or>
         (\<exists>earth d. findEarth (planets s) = Some earth \<and>
            earth \<in> set (planets (fold (buildEntry rnd) catalog initial)) \<and>
            data_distance (data earth) = Some d \<and>
            planets s = planets (fold (buildEntry rnd) catalog initial) @
              [meteorBody (length (objects (fold (buildEntry rnd) catalog initial)))
                 (orbitGroup earth)] \<and>
            objects s = objects (fold (buildEntry rnd) catalog initial) @
              [meteorObject rnd ico (drawn (fold (buildEntry rnd) catalog initial))
                 (orbitGroup earth) (d + 1.8)])"
proof -
  obtain s' where s': "createSolarSystem rnd ico catalog initial = Some s'"
    and p: "planets s = planets s'" "objects s = objects s'"
    using init_parts [OF assms] by blast
  show ?thesis
    unfolding p by (rule createSolarSystem_cases [OF s'])
qed

lemma turned_fields:
  "kind (turned a ob) = kind ob" "parent (turned a ob) = parent ob"
  "position (turned a ob) = position ob" "rotation_x (turned a ob) = rotation_x ob"
  "rotation_y (turned a ob) = rotation_y ob + a" "obj_name (turned a ob) = obj_name ob"
  by (simp_all add: turned_def)

lemma body_in_range:
  assumes "init rnd ico catalog = Some s0" and "b \<in> set (planets s0)"
  shows "mesh b < length (objects s0)" "orbitGroup b < length (objects s0)"
  using wellBuilt_placed [OF init_wellBuilt [OF assms(1)] assms(2)]
  by (simp_all add: placed_def)

lemma animate2_frames: "animate d2 (animate d1 s) = frames [d1, d2] s"
  by (simp add: frames_def)

lemma animate_frames: "animate d s = frames [d] s"
  by (simp add: frames_def)

lemma frames_append: "frames es (frames ds s) = frames (ds @ es) s"
  by (simp add: frames_def)

lemma rotation_y_later:
  assumes "i < length (objects s0)"
  shows "rotation_y (objects (frames es (frames ds s0)) ! i) =
           rotation_y (objects (frames ds s0) ! i) + rate (planets s0) i * sum_list es"
proof -
  have l: "i < length (objects (frames ds s0))"
    using assms by (simp only: length_frames)
  show ?thesis
    by (simp only: nth_frames [OF l] planets_frames turned_fields)
qed

lemma solarData_one_second:
  assumes "init rnd ico solarData = Some s0"
    and "s = frames ds s0"
  shows "\<exists>earth. findEarth (planets s) = Some earth \<and>
            rotation_y (objects (animate 1.0 s) ! orbitGroup earth) =
              rotation_y (objects s ! orbitGroup earth) + 0.09 \<and>
            rotation_y (objects (animate 1.0 s) ! mesh earth) =
              rotation_y (objects s ! mesh earth) + 0.15"
proof -
  obtain a b c g t e where s: "s = sceneAt rnd ico a b c g t e"
    using reached [OF assms(1), of ds] assms(2) by auto
  show ?thesis
    unfolding s animate_sceneAt planets_sceneAt objects_sceneAt findEarth_registry
    by (simp add: registry_def solarData_def rotation_y_parts algebra_simps)
qed

lemma isLine_iff: "isLine ob \<longleftrightarrow> (\<exists>g m. kind ob = LineLoop g m)"
  by (cases "kind ob") (simp_all add: isLine_def)

lemma wellBuilt_line:
  assumes "wellBuilt objs ps" "i < length objs" "isLine (objs ! i)"
  shows "parent (objs ! i) = Scene"
  using assms by (simp add: wellBuilt_def list_all_length)

lemma worldVertices_Scene:
  assumes "i < length objs" "parent (objs ! i) = Scene"
  shows "worldVertices objs i =
     (case kind (objs ! i) of
        LineLoop (BufferGeometry pts) m \<Rightarrow> map (\<lambda>p. Some (applyLocal (objs ! i) p)) pts
      | _ \<Rightarrow> [])"
  using assms by (simp split: Kind.split Geometry.split)

subsection \<open>World positions\<close>

lemma rotateX_0: "rotateX 0 p = p"
  by (cases p) simp

lemma rotateY_origin: "rotateY t (0, 0, 0) = (0, 0, 0)"
  by simp

lemma rotateX_origin: "rotateX t (0, 0, 0) = (0, 0, 0)"
  by simp

lemma vadd_0: "vadd p (0, 0, 0) = p" "vadd (0, 0, 0) p = p"
  by (cases p, simp)+

lemma applyLocal_origin: "applyLocal ob (0, 0, 0) = position ob"
  unfolding applyLocal_def rotateY_origin rotateX_origin by (rule vadd_0)

lemma world_under_pivot:
  assumes m: "m < length objs" and g: "g < length objs"
    and pm: "parent (objs ! m) = Obj g" and xm: "position (objs ! m) = (x, 0, 0)"
    and pg: "parent (objs ! g) = Scene" and xg: "position (objs ! g) = (0, 0, 0)"
    and rg: "rotation_x (objs ! g) = 0"
  shows "getWorldPosition objs m = Some (rotateY (rotation_y (objs ! g)) (x, 0, 0))"
proof -
  obtain k where k: "length objs = Suc k"
    using g by (cases "length objs") simp_all
  have 1: "applyLocal (objs ! m) (0, 0, 0) = (x, 0, 0)"
    by (simp only: applyLocal_origin xm)
  have 2: "applyLocal (objs ! g) (x, 0, 0) = rotateY (rotation_y (objs ! g)) (x, 0, 0)"
    unfolding applyLocal_def xg rg rotateX_0 by (rule vadd_0)
  have 3: "localToWorld (Suc k) objs g (x, 0, 0) =
             Some (rotateY (rotation_y (objs ! g)) (x, 0, 0))"
    using g pg by (simp add: 2)
  have "localToWorld (Suc (Suc k)) objs m (0, 0, 0) = localToWorld (Suc k) objs g (x, 0, 0)"
    using m by (simp only: localToWorld.simps if_True pm Parent.case 1)
  then show ?thesis
    unfolding getWorldPosition_def k 3 .
qed

lemma world_of_pivot:
  assumes g: "g < length objs"
    and pg: "parent (objs ! g) = Scene" and xg: "position (objs ! g) = (0, 0, 0)"
  shows "getWorldPosition objs g = Some (0, 0, 0)"
  unfolding getWorldPosition_def using g pg by (simp add: applyLocal_origin xg)

lemma placed_frames:
  assumes "init rnd ico catalog = Some s0" and "b \<in> set (planets s0)"
  shows "placed (objects (frames ds s0)) b"
proof -
  note p = wellBuilt_placed [OF init_wellBuilt [OF assms(1)] assms(2)]
  from p have r: "mesh b < length (objects s0)" "orbitGroup b < length (objects s0)"
    by (simp_all add: placed_def)
  show ?thesis
    using p unfolding placed_def length_frames nth_frames [OF r(1)] nth_frames [OF r(2)]
    by (simp add: turned_fields isMesh_def split: option.splits)
qed

lemma placed_world:
  assumes "placed objs b" and "data_distance (data b) = Some d"
  shows "getWorldPosition objs (mesh b) = Some (rotateY (rotation_y (objs ! orbitGroup b)) (d, 0, 0))"
    and "getWorldPosition objs (orbitGroup b) = Some (0, 0, 0)"
proof -
  from assms have f: "mesh b < length objs" "orbitGroup b < length objs"
    "parent (objs ! mesh b) = Obj (orbitGroup b)" "position (objs ! mesh b) = (d, 0, 0)"
    "parent (objs ! orbitGroup b) = Scene" "position (objs ! orbitGroup b) = (0, 0, 0)"
    "rotation_x (objs ! orbitGroup b) = 0"
    by (simp_all add: placed_def)
  show "getWorldPosition objs (mesh b) = Some (rotateY (rotation_y (objs ! orbitGroup b)) (d, 0, 0))"
    using f by (rule world_under_pivot)
  show "getWorldPosition objs (orbitGroup b) = Some (0, 0, 0)"
    using f(2,5,6) by (rule world_of_pivot)
qed

lemma animate_target:
  assumes "findEarth (planets s) = Some earth"
    and "getWorldPosition (objects (animate delta s)) (mesh earth) = Some p"
  shows "controls_target (animate delta s) = p \<and> earthTarget (animate delta s) = p"
proof -
  let ?s1 = "fold (updateBody delta) (planets s) s"
  have o: "objects (animate delta s) = objects ?s1" by (rule objects_animate)
  have f: "findEarth (planets ?s1) = Some earth"
    using assms(1) by (simp only: fold_updateBody_frame)
  have g: "getWorldPosition (objects ?s1) (mesh earth) = Some p"
    using assms(2) by (simp only: o)
  show ?thesis
    by (simp add: animate_def Let_def f g)
qed

lemma found_body:
  assumes "init rnd ico catalog = Some s0" and "findEarth (planets s0) = Some earth"
  shows "earth \<in> set (planets s0)" and "\<exists>d. data_distance (data earth) = Some d"
proof -
  show "earth \<in> set (planets s0)"
    using assms(2) by (simp add: findEarth_SomeD)
  show "\<exists>d. data_distance (data earth) = Some d"
    using init_cases [OF assms(1)] assms(2) by auto
qed

lemma camera_target_found:
  assumes "init rnd ico catalog = Some s0"
    and "s = frames ds s0"
    and "s' = animate delta s"
    and "findEarth (planets s) = Some earth"
  shows "\<exists>p d.
           data_distance (data earth) = Some d \<and>
           findEarth (planets s') = Some earth \<and>
           rotation_y (objects s' ! mesh earth) =
             rotation_y (objects s ! mesh earth) + data_rotationSpeed (data earth) * delta * 5 \<and>
           rotation_y (objects s' ! orbitGroup earth) =
             rotation_y (objects s ! orbitGroup earth) +
               (if d > 0 then data_orbitSpeed (data earth) * delta * 5 else 0) \<and>
           getWorldPosition (objects s') (mesh earth) = Some p \<and>
           p = rotateY (rotation_y (objects s' ! orbitGroup earth)) (d, 0, 0) \<and>
           controls_target s' = p \<and> earthTarget s' = p"
proof -
  note w = init_wellBuilt [OF assms(1)]
  have ps: "planets s = planets s0"
    unfolding assms(2) by (rule planets_frames)
  have f0: "findEarth (planets s0) = Some earth"
    using assms(4) by (simp only: ps)
  note e = found_body(1) [OF assms(1) f0]
  obtain d where d: "data_distance (data earth) = Some d"
    using found_body(2) [OF assms(1) f0] by blast
  have s': "s' = frames (ds @ [delta]) s0"
    unfolding assms(3) assms(2) animate_frames by (rule frames_append)
  have f': "findEarth (planets s') = Some earth"
    unfolding s' planets_frames by (rule f0)
  have spin: "rotation_y (objects s' ! mesh earth) =
             rotation_y (objects s ! mesh earth) + data_rotationSpeed (data earth) * delta * 5"
    using rotation_y_later [OF body_in_range(1) [OF assms(1) e], of "[delta]" ds]
    unfolding assms(3) assms(2) animate_frames rate_mesh [OF w e] by simp
  have orbit: "rotation_y (objects s' ! orbitGroup earth) =
             rotation_y (objects s ! orbitGroup earth) +
               (if d > 0 then data_orbitSpeed (data earth) * delta * 5 else 0)"
  proof (cases "d > 0")
    case True
    then have g: "js_gt0 (data_distance (data earth))" by (simp add: d)
    show ?thesis
      using rotation_y_later [OF body_in_range(2) [OF assms(1) e], of "[delta]" ds] True
      unfolding assms(3) assms(2) animate_frames rate_orbit [OF w e g] by simp
  next
    case False
    show ?thesis
      using rotation_y_later [OF body_in_range(2) [OF assms(1) e], of "[delta]" ds] False
      unfolding assms(3) assms(2) animate_frames rate_still [OF w e d False] by simp
  qed
  have pl: "placed (objects s') earth"
    unfolding s' by (rule placed_frames [OF assms(1) e])
  have wp: "getWorldPosition (objects s') (mesh earth) =
              Some (rotateY (rotation_y (objects s' ! orbitGroup earth)) (d, 0, 0))"
    by (rule placed_world(1) [OF pl d])
  have t: "controls_target s' = rotateY (rotation_y (objects s' ! orbitGroup earth)) (d, 0, 0) \<and>
           earthTarget s' = rotateY (rotation_y (objects s' ! orbitGroup earth)) (d, 0, 0)"
    using wp unfolding assms(3) by (rule animate_target [OF assms(4)])
  from d f' spin orbit wp t show ?thesis
    by blast
qed

lemma meteor_attached:
  assumes i: "init rnd ico catalog = Some s0" and f: "findEarth (planets s0) = Some earth"
    and d: "data_distance (data earth) = Some d"
  shows "\<exists>n. n < length (objects s0) \<and> meteorBody n (orbitGroup earth) \<in> set (planets s0) \<and>
           parent (objects s0 ! n) = Obj (orbitGroup earth) \<and>
           position (objects s0 ! n) = (d + 1.8, 0, 0)"
proof -
  let ?s1 = "fold (buildEntry rnd) catalog initial"
  from init_cases [OF i] f d
  have p: "planets s0 = planets ?s1 @ [meteorBody (length (objects ?s1)) (orbitGroup earth)]"
    and o: "objects s0 = objects ?s1 @
              [meteorObject rnd ico (drawn ?s1) (orbitGroup earth) (d + 1.8)]"
    by auto
  show ?thesis
    by (rule exI [of _ "length (objects ?s1)"]) (simp add: p o meteorObject_def)
qed

lemma asteroid_is_meteor:
  assumes i: "init rnd ico catalog = Some s0" and b: "b \<in> set (planets s0)"
    and a: "isAsteroid (data b)"
  shows "\<exists>earth n. findEarth (planets s0) = Some earth \<and> b = meteorBody n (orbitGroup earth)"
proof -
  let ?s1 = "fold (buildEntry rnd) catalog initial"
  have c: "\<not> isAsteroid (data x)" if "x \<in> set (planets ?s1)" for x
  proof -
    from that have "data x \<in> set (map data (planets ?s1))" by simp
    then have "data x \<in> Catalog ` set catalog" unfolding built_catalog by simp
    then show ?thesis by auto
  qed
  from init_cases [OF i] show ?thesis
  proof (elim disjE exE conjE)
    assume "planets s0 = planets ?s1"
    with b a c show ?thesis by auto
  next
    fix earth d
    assume "findEarth (planets s0) = Some earth"
      and "planets s0 = planets ?s1 @ [meteorBody (length (objects ?s1)) (orbitGroup earth)]"
    with b a c show ?thesis by auto
  qed
qed

lemma meteor_lockstep_found:
  assumes "init rnd ico catalog = Some s0"
    and "s = frames ds s0"
    and "findEarth (planets s) = Some earth"
  shows "\<exists>meteor d.
           data_distance (data earth) = Some d \<and>
           meteor \<in> set (planets s) \<and> isAsteroid (data meteor) \<and>
           orbitGroup meteor = orbitGroup earth \<and>
           getWorldPosition (objects s) (orbitGroup earth) = Some (0, 0, 0) \<and>
           getWorldPosition (objects s) (mesh meteor) =
             Some (rotateY (rotation_y (objects s ! orbitGroup earth)) (d + 1.8, 0, 0)) \<and>
           getWorldPosition (objects s) (mesh earth) =
             Some (rotateY (rotation_y (objects s ! orbitGroup earth)) (d, 0, 0)) \<and>
           vlength (rotateY (rotation_y (objects s ! orbitGroup earth)) (d + 1.8, 0, 0)) =
             \<bar>d + 1.8\<bar> \<and>
           (catalog = solarData \<longrightarrow> d = 11)"
proof -
  have ps: "planets s = planets s0"
    unfolding assms(2) by (rule planets_frames)
  have f0: "findEarth (planets s0) = Some earth"
    using assms(3) by (simp only: ps)
  note e = found_body(1) [OF assms(1) f0]
  obtain d where d: "data_distance (data earth) = Some d"
    using found_body(2) [OF assms(1) f0] by blast
  obtain n where n: "n < length (objects s0)"
    and m: "meteorBody n (orbitGroup earth) \<in> set (planets s0)"
    and pn: "parent (objects s0 ! n) = Obj (orbitGroup earth)"
    and xn: "position (objects s0 ! n) = (d + 1.8, 0, 0)"
    using meteor_attached [OF assms(1) f0 d] by blast
  have pl: "placed (objects s) earth"
    unfolding assms(2) by (rule placed_frames [OF assms(1) e])
  then have g: "orbitGroup earth < length (objects s)"
    "parent (objects s ! orbitGroup earth) = Scene"
    "position (objects s ! orbitGroup earth) = (0, 0, 0)"
    "rotation_x (objects s ! orbitGroup earth) = 0"
    by (simp_all add: placed_def)
  have n': "n < length (objects s)"
    unfolding assms(2) length_frames by (rule n)
  have pn': "parent (objects s ! n) = Obj (orbitGroup earth)"
    and xn': "position (objects s ! n) = (d + 1.8, 0, 0)"
    unfolding assms(2) nth_frames [OF n] turned_fields by (rule pn, rule xn)
  have wm: "getWorldPosition (objects s) n =
              Some (rotateY (rotation_y (objects s ! orbitGroup earth)) (d + 1.8, 0, 0))"
    using n' g(1) pn' xn' g(2,3,4) by (rule world_under_pivot)
  have solar: "d = 11" if "catalog = solarData"
  proof -
    from that assms(1) have i: "init rnd ico solarData = Some s0" by simp
    have "planets s0 = registry"
      unfolding init_shape [OF i] by (rule planets_sceneAt)
    with f0 have "earth = registry ! 1"
      by (simp only: findEarth_registry option.inject)
    then have "data_distance (data earth) = Some 11"
      by (simp add: registry_def solarData_def)
    with d show ?thesis by simp
  qed
  then have solar': "catalog = solarData \<longrightarrow> d = 11"
    by blast
  have v: "vlength (rotateY (rotation_y (objects s ! orbitGroup earth)) (d + 1.8, 0, 0)) =
             \<bar>d + 1.8\<bar>"
    by (rule vlength_rotateY)
  have m': "meteorBody n (orbitGroup earth) \<in> set (planets s)"
    unfolding ps by (rule m)
  show ?thesis
    apply (rule exI [of _ "meteorBody n (orbitGroup earth)"], rule exI [of _ d])
    using d m' placed_world [OF pl d] wm solar' v
    by (simp only: meteorBody_simps simp_thms)
qed

lemma pivot_advanced_once:
  assumes "init rnd ico catalog = Some s0"
    and "s = frames ds s0"
    and "s' = animate delta s"
  shows "(\<forall>b\<in>set (planets s). \<forall>d. data_distance (data b) = Some d \<longrightarrow>
            rotation_y (objects s' ! orbitGroup b) =
              rotation_y (objects s ! orbitGroup b) +
                (if d > 0 then data_orbitSpeed (data b) * delta * 5 else 0)) \<and>
         (\<forall>b\<in>set (planets s). isAsteroid (data b) \<longrightarrow>
            data_distance (data b) = None \<and> \<not> js_gt0 (data_distance (data b)) \<and>
            (\<exists>earth d. findEarth (planets s) = Some earth \<and>
               data_distance (data earth) = Some d \<and> orbitGroup b = orbitGroup earth) \<and>
            rotation_y (objects (updateBody delta b s) ! orbitGroup b) =
              rotation_y (objects s ! orbitGroup b))"
proof (intro conjI ballI allI impI)
  note w = init_wellBuilt [OF assms(1)]
  have ps: "planets s = planets s0"
    unfolding assms(2) by (rule planets_frames)
  {
    fix b d assume "b \<in> set (planets s)" and d: "data_distance (data b) = Some d"
    then have b: "b \<in> set (planets s0)" by (simp only: ps)
    note r = rotation_y_later [OF body_in_range(2) [OF assms(1) b], of "[delta]" ds]
    show "rotation_y (objects s' ! orbitGroup b) =
              rotation_y (objects s ! orbitGroup b) +
                (if d > 0 then data_orbitSpeed (data b) * delta * 5 else 0)"
    proof (cases "d > 0")
      case True
      then have g: "js_gt0 (data_distance (data b))" by (simp add: d)
      show ?thesis
        using r True unfolding assms(3) assms(2) animate_frames rate_orbit [OF w b g] by simp
    next
      case False
      show ?thesis
        using r False unfolding assms(3) assms(2) animate_frames rate_still [OF w b d False]
        by simp
    qed
  next
    fix b assume "b \<in> set (planets s)" and a: "isAsteroid (data b)"
    then have b: "b \<in> set (planets s0)" by (simp only: ps)
    obtain earth n where f0: "findEarth (planets s0) = Some earth"
      and bm: "b = meteorBody n (orbitGroup earth)"
      using asteroid_is_meteor [OF assms(1) b a] by blast
    obtain d where d: "data_distance (data earth) = Some d"
      using found_body(2) [OF assms(1) f0] by blast
    show "data_distance (data b) = None"
      unfolding bm by (simp add: meteorBody_simps)
    show "\<not> js_gt0 (data_distance (data b))"
      unfolding bm by (simp add: meteorBody_simps)
    show "\<exists>earth d. findEarth (planets s) = Some earth \<and>
               data_distance (data earth) = Some d \<and> orbitGroup b = orbitGroup earth"
      unfolding ps using f0 d bm by (simp add: meteorBody_simps)
    have l: "orbitGroup b < length (objects s)"
      unfolding assms(2) length_frames by (rule body_in_range(2) [OF assms(1) b])
    have "bodyRate b (orbitGroup b) = 0"
      using wellBuilt_mesh_orbit [OF w b b] by (simp add: bodyRate_def bm meteorBody_simps)
    then show "rotation_y (objects (updateBody delta b s) ! orbitGroup b) =
              rotation_y (objects s ! orbitGroup b)"
      unfolding nth_updateBody [OF l] by (simp add: turned_fields)
  }
qed

lemma applyLocal_orbitLine: "applyLocal orbitLine (x, 0, z) = (x, - z, 0)"
  by (simp add: applyLocal_def orbitLine_def)

lemma nth_orbitPoints:
  assumes "k \<le> n"
  shows "orbitPoints r n ! k =
           (r * cos (real k / real n * pi * 2), 0, r * sin (real k / real n * pi * 2))"
proof -
  have l: "k < length [0..<Suc n]"
    using assms by simp
  from assms have u: "[0..<Suc n] ! k = k"
    by (simp only: nth_upt)
  show ?thesis
    unfolding orbitPoints_def nth_map [OF l] u Let_def ..
qed

lemma findEarth_sample: "findEarth (planets sample) = Some (planets sample ! 1)"
  unfolding planets_sample by (rule findEarth_registry)

lemma earth_found:
  assumes i: "init rnd ico catalog = Some s0" and c: "\<exists>d\<in>set catalog. name d = ''Earth''"
  shows "\<exists>earth. findEarth (planets s0) = Some earth"
proof (cases "findEarth (planets s0)")
  case None
  let ?s1 = "fold (buildEntry rnd) catalog initial"
  from init_cases [OF i] None have "planets s0 = planets ?s1"
    by auto
  with None have "findEarth (planets ?s1) = None"
    by simp
  then have "\<forall>x\<in>set (map Catalog catalog). data_name x \<noteq> ''Earth''"
    unfolding findEarth_None_iff built_catalog .
  with c show ?thesis by auto
next
  case (Some earth)
  then show ?thesis by blast
qed

lemma solarData_has_Earth: "\<exists>d\<in>set solarData. name d = ''Earth''"
  by (simp add: solarData_def)

section \<open>The claims\<close>

text \<open>
  Claim C1, as stated, says that the shared orbit group advances once per frame by the
  Earth's \<open>orbitSpeed * delta * 5\<close> because the meteor's own descriptor carries a
  distance of 0. The advance holds, the reason does not: the meteor's descriptor has no
  \<^verbatim>\<open>distance\<close> property at all, so its distance is \<^verbatim>\<open>undefined\<close>, not 0. In the
  sample run the conjunction of the two is false.
\<close>

theorem C1_counterexample:
  "init (\<lambda>n. 0) (\<lambda>sz detail. []) solarData = Some sample \<and>
   \<not> (rotation_y (objects (animate 1 sample) ! 3) = rotation_y (objects sample ! 3) + 0.018 * 1 * 5 \<and>
      (\<forall>b\<in>set (planets sample). isAsteroid (data b) \<longrightarrow> data_distance (data b) = Some 0))"
proof -
  have "registry ! 2 \<in> set (planets sample)"
    "isAsteroid (data (registry ! 2))"
    "data_distance (data (registry ! 2)) \<noteq> Some 0"
    by (simp_all add: planets_sample registry_def)
  then show ?thesis
    using init_sample by blast
qed

text \<open>
  Claim C1, amended. For any catalog, in every state reached from \<^verbatim>\<open>init\<close> by any
  frames, one more frame with elapsed time \<open>delta\<close> advances the orbit group of every
  body that has a distance exactly once: by that body's \<open>orbitSpeed * delta * 5\<close> when
  the distance is positive, and not at all otherwise. The meteor's descriptor has no
  distance, the test \<^verbatim>\<open>data.distance > 0\<close> is false for it, its orbit group is the
  Earth's, and its own update leaves the angle of that group as it was: nothing is
  applied twice. For the catalog of the script the Earth and the meteor share their
  orbit group, which advances by the Earth's \<open>orbitSpeed * delta * 5\<close>.
\<close>

theorem C1_pivot_advanced_once:
  assumes "init rnd ico catalog = Some s0"
    and "s = frames ds s0"
    and "s' = animate delta s"
  shows "(\<forall>b\<in>set (planets s). \<forall>d. data_distance (data b) = Some d \<longrightarrow>
            rotation_y (objects s' ! orbitGroup b) =
              rotation_y (objects s ! orbitGroup b) +
                (if d > 0 then data_orbitSpeed (data b) * delta * 5 else 0)) \<and>
         (\<forall>b\<in>set (planets s). isAsteroid (data b) \<longrightarrow>
            data_distance (data b) = None \<and> \<not> js_gt0 (data_distance (data b)) \<and>
            (\<exists>earth d. findEarth (planets s) = Some earth \<and>
               data_distance (data earth) = Some d \<and> orbitGroup b = orbitGroup earth) \<and>
            rotation_y (objects (updateBody delta b s) ! orbitGroup b) =
              rotation_y (objects s ! orbitGroup b)) \<and>
         (catalog = solarData \<longrightarrow>
            (\<exists>earth meteor. findEarth (planets s) = Some earth \<and>
               meteor \<in> set (planets s) \<and> isAsteroid (data meteor) \<and>
               orbitGroup meteor = orbitGroup earth \<and>
               rotation_y (objects s' ! orbitGroup earth) =
                 rotation_y (objects s ! orbitGroup earth) +
                   data_orbitSpeed (data earth) * delta * 5))"
proof -
  note g = pivot_advanced_once [OF assms]
  have "\<exists>earth meteor. findEarth (planets s) = Some earth \<and>
               meteor \<in> set (planets s) \<and> isAsteroid (data meteor) \<and>
               orbitGroup meteor = orbitGroup earth \<and>
               rotation_y (objects s' ! orbitGroup earth) =
                 rotation_y (objects s ! orbitGroup earth) +
                   data_orbitSpeed (data earth) * delta * 5"
    if c: "catalog = solarData"
  proof -
    have "\<exists>d\<in>set catalog. name d = ''Earth''"
      unfolding c by (rule solarData_has_Earth)
    with assms(1) have "\<exists>earth. findEarth (planets s0) = Some earth"
      by (rule earth_found)
    then obtain earth where f: "findEarth (planets s) = Some earth"
      unfolding assms(2) planets_frames by blast
    from meteor_lockstep_found [OF assms(1,2) f] c obtain meteor where
      m: "meteor \<in> set (planets s)" "isAsteroid (data meteor)"
        "orbitGroup meteor = orbitGroup earth" and d: "data_distance (data earth) = Some 11"
      by auto
    have e: "earth \<in> set (planets s)"
      using f by (simp add: findEarth_SomeD)
    from g e d have "rotation_y (objects s' ! orbitGroup earth) =
        rotation_y (objects s ! orbitGroup earth) +
          (if (11::real) > 0 then data_orbitSpeed (data earth) * delta * 5 else 0)"
      by blast
    then have "rotation_y (objects s' ! orbitGroup earth) =
        rotation_y (objects s ! orbitGroup earth) + data_orbitSpeed (data earth) * delta * 5"
      by simp
    with f m show ?thesis by blast
  qed
  with g show ?thesis by blast
qed

text \<open>
  The instance: the Earth and the meteor in the sample run, one frame with elapsed
  time 1.
\<close>

theorem C1_pivot_advanced_once_witness:
  "init (\<lambda>n. 0) (\<lambda>sz detail. []) solarData = Some sample \<and>
   planets sample ! 1 \<in> set (planets sample) \<and>
   data_distance (data (planets sample ! 1)) = Some 11 \<and>
   rotation_y (objects (animate 1 sample) ! orbitGroup (planets sample ! 1)) =
     rotation_y (objects sample ! orbitGroup (planets sample ! 1)) +
       data_orbitSpeed (data (planets sample ! 1)) * 1 * 5 \<and>
   planets sample ! 2 \<in> set (planets sample) \<and>
   isAsteroid (data (planets sample ! 2)) \<and>
   data_distance (data (planets sample ! 2)) = None \<and>
   \<not> js_gt0 (data_distance (data (planets sample ! 2))) \<and>
   orbitGroup (planets sample ! 2) = orbitGroup (planets sample ! 1) \<and>
   rotation_y (objects (updateBody 1 (planets sample ! 2) sample) ! orbitGroup (planets sample ! 2)) =
     rotation_y (objects sample ! orbitGroup (planets sample ! 2))"
proof -
  have a: "isAsteroid (data (planets sample ! 2))"
    by (simp only: sample_data isAsteroid.simps)
  have g: "orbitGroup (planets sample ! 2) = orbitGroup (planets sample ! 1)"
    by (simp add: planets_sample registry_def)
  note c = C1_pivot_advanced_once [OF init_sample frames_Nil refl, of 1]
  from c sample_bodies(2) sample_distances(2) have c1:
    "rotation_y (objects (animate 1 sample) ! orbitGroup (planets sample ! 1)) =
     rotation_y (objects sample ! orbitGroup (planets sample ! 1)) +
       (if (11::real) > 0 then data_orbitSpeed (data (planets sample ! 1)) * 1 * 5 else 0)"
    by blast
  then have c1': "rotation_y (objects (animate 1 sample) ! orbitGroup (planets sample ! 1)) =
     rotation_y (objects sample ! orbitGroup (planets sample ! 1)) +
       data_orbitSpeed (data (planets sample ! 1)) * 1 * 5"
    by simp
  from c sample_bodies(3) a have c2:
    "data_distance (data (planets sample ! 2)) = None"
    "\<not> js_gt0 (data_distance (data (planets sample ! 2)))"
    "rotation_y (objects (updateBody 1 (planets sample ! 2) sample) ! orbitGroup (planets sample ! 2)) =
     rotation_y (objects sample ! orbitGroup (planets sample ! 2))"
    by blast+
  from init_sample sample_bodies(2,3) sample_distances(2) a g c1' c2 show ?thesis
    by (intro conjI)
qed

text \<open>
  Claim C2 evaluated on the script's catalog. The ring built for the Earth (distance 11)
  is a line loop on 65 points of radius 11, the last equal to the first, given in the
  plane \<open>y = 0\<close>, and its parent is the scene root. The script then turns the ring by
  \<open>pi / 2\<close> about the x axis, so in world space every vertex has \<open>z = 0\<close>: the vertex
  number 16, \<open>(0, 0, 11)\<close> in the ring's frame, stands at \<open>(0, - 11, 0)\<close>. The ring
  is upright, not in the horizontal plane in which the Earth revolves.
\<close>

theorem C2_ring_is_vertical:
  assumes "init rnd ico solarData = Some s0"
  shows "kind (objects s0 ! 4) =
           LineLoop (BufferGeometry (orbitPoints 11 64)) (LineBasicMaterial 4473924 1) \<and>
         parent (objects s0 ! 4) = Scene \<and>
         length (orbitPoints 11 64) = 65 \<and>
         orbitPoints 11 64 ! 64 = orbitPoints 11 64 ! 0 \<and>
         (\<forall>k\<le>64. orbitPoints 11 64 ! k =
            (11 * cos (real k / 64 * pi * 2), 0, 11 * sin (real k / 64 * pi * 2))) \<and>
         (\<forall>k\<le>64. worldVertices (objects s0) 4 ! k =
            Some (11 * cos (real k / 64 * pi * 2), - (11 * sin (real k / 64 * pi * 2)), 0)) \<and>
         orbitPoints 11 64 ! 16 = (0, 0, 11) \<and>
         worldVertices (objects s0) 4 ! 16 = Some (0, - 11, 0)"
proof -
  have o: "objects s0 ! 4 = orbitLine"
    unfolding init_shape [OF assms] objects_sceneAt by simp
  have 1: "kind (objects s0 ! 4) =
           LineLoop (BufferGeometry (orbitPoints 11 64)) (LineBasicMaterial 4473924 1)"
    unfolding o by (rule kind_parts)
  have 2: "parent (objects s0 ! 4) = Scene"
    unfolding o by (rule parent_parts)
  have 3: "length (orbitPoints 11 64) = 65"
    by (simp add: length_orbitPoints)
  have 5: "orbitPoints 11 64 ! k =
            (11 * cos (real k / 64 * pi * 2), 0, 11 * sin (real k / 64 * pi * 2))"
    if "k \<le> 64" for k
    using nth_orbitPoints [OF that, of 11] by simp
  have 6: "worldVertices (objects s0) 4 ! k =
            Some (11 * cos (real k / 64 * pi * 2), - (11 * sin (real k / 64 * pi * 2)), 0)"
    if "k \<le> 64" for k
  proof -
    from that have "k < length (orbitPoints 11 64)" by (simp add: length_orbitPoints)
    then have "worldVertices (objects s0) 4 ! k = Some (applyLocal orbitLine (orbitPoints 11 64 ! k))"
      unfolding init_shape [OF assms] objects_sceneAt worldVertices_orbitLine by simp
    then show ?thesis
      unfolding 5 [OF that] applyLocal_orbitLine by simp
  qed
  have 8: "worldVertices (objects s0) 4 ! 16 = Some (0, - 11, 0)"
    using 6 [of 16] by simp
  from 1 2 3 orbitPoints_closed [of 11] 5 6 orbitPoints_16 8 show ?thesis
    by blast
qed

text \<open>
  The instance: the sample run.
\<close>

theorem C2_ring_is_vertical_witness:
  "init (\<lambda>n. 0) (\<lambda>sz detail. []) solarData = Some sample \<and>
   kind (objects sample ! 4) =
     LineLoop (BufferGeometry (orbitPoints 11 64)) (LineBasicMaterial 4473924 1) \<and>
   parent (objects sample ! 4) = Scene \<and>
   length (orbitPoints 11 64) = 65 \<and>
   orbitPoints 11 64 ! 64 = orbitPoints 11 64 ! 0 \<and>
   orbitPoints 11 64 ! 16 = (0, 0, 11) \<and>
   worldVertices (objects sample) 4 ! 16 = Some (0, - 11, 0)"
  using C2_ring_is_vertical [OF init_sample] init_sample
  by blast

text \<open>
  Claim C3, as stated, says that exactly one body of the registry has distance 0 and
  that every other body has a positive distance and an orbit group of its own. In the
  sample run the meteor is a body of the registry with no distance at all, and its orbit
  group is the Earth's.
\<close>

theorem C3_counterexample:
  "init (\<lambda>n. 0) (\<lambda>sz detail. []) solarData = Some sample \<and>
   \<not> ((\<exists>!b. b \<in> set (planets sample) \<and> data_distance (data b) = Some 0) \<and>
      (\<forall>b\<in>set (planets sample). data_distance (data b) \<noteq> Some 0 \<longrightarrow>
         js_gt0 (data_distance (data b)) \<and>
         (\<forall>b'\<in>set (planets sample). b' \<noteq> b \<longrightarrow> orbitGroup b' \<noteq> orbitGroup b)))"
proof -
  have "registry ! 2 \<in> set (planets sample)"
    "data_distance (data (registry ! 2)) \<noteq> Some 0"
    "\<not> js_gt0 (data_distance (data (registry ! 2)))"
    by (simp_all add: planets_sample registry_def)
  then show ?thesis
    using init_sample by blast
qed

text \<open>
  Claim C3, amended. After scene construction exactly one body of the registry has
  distance 0, and it is the Sun. Every body built from a catalog entry, when its
  distance is not 0, has a positive distance; its mesh hangs under its orbit group,
  which is a group under the scene root turned about the vertical axis only, and no
  other catalog body has the same orbit group. The meteor has no distance, and hangs
  under the orbit group of the Earth.
\<close>

theorem C3_registry_invariant:
  assumes "init rnd ico solarData = Some s0"
  shows "(\<exists>!b. b \<in> set (planets s0) \<and> data_distance (data b) = Some 0) \<and>
         (\<forall>b\<in>set (planets s0). data_distance (data b) = Some 0 \<longrightarrow> data_name (data b) = ''Sun'') \<and>
         (\<forall>b\<in>set (planets s0). \<not> isAsteroid (data b) \<longrightarrow>
            (data_distance (data b) \<noteq> Some 0 \<longrightarrow> js_gt0 (data_distance (data b))) \<and>
            parent (objects s0 ! mesh b) = Obj (orbitGroup b) \<and>
            kind (objects s0 ! orbitGroup b) = Group \<and>
            parent (objects s0 ! orbitGroup b) = Scene \<and>
            rotation_x (objects s0 ! orbitGroup b) = 0 \<and>
            (\<forall>b'\<in>set (planets s0). \<not> isAsteroid (data b') \<longrightarrow> b' \<noteq> b \<longrightarrow>
               orbitGroup b' \<noteq> orbitGroup b)) \<and>
         (\<forall>b\<in>set (planets s0). isAsteroid (data b) \<longrightarrow>
            data_distance (data b) = None \<and>
            parent (objects s0 ! mesh b) = Obj (orbitGroup b) \<and>
            (\<exists>earth. findEarth (planets s0) = Some earth \<and> orbitGroup b = orbitGroup earth))"
proof -
  have u: "\<exists>!b. b \<in> set registry \<and> data_distance (data b) = Some 0"
  proof (rule ex1I [of _ "registry ! 0"])
    show "registry ! 0 \<in> set registry \<and> data_distance (data (registry ! 0)) = Some 0"
      by (simp add: registry_def solarData_def)
  next
    fix b assume "b \<in> set registry \<and> data_distance (data b) = Some 0"
    then show "b = registry ! 0"
      by (auto simp: registry_def solarData_def)
  qed
  show ?thesis
    unfolding init_shape [OF assms] planets_sceneAt objects_sceneAt findEarth_registry
    apply (intro conjI u)
    by (simp_all add: registry_def solarData_def parent_parts kind_parts rotation_x_pivot)
qed

text \<open>
  The instance: the Earth and the meteor in the sample run.
\<close>

theorem C3_registry_invariant_witness:
  "init (\<lambda>n. 0) (\<lambda>sz detail. []) solarData = Some sample \<and>
   (\<exists>!b. b \<in> set (planets sample) \<and> data_distance (data b) = Some 0) \<and>
   planets sample ! 1 \<in> set (planets sample) \<and>
   \<not> isAsteroid (data (planets sample ! 1)) \<and>
   js_gt0 (data_distance (data (planets sample ! 1))) \<and>
   parent (objects sample ! mesh (planets sample ! 1)) = Obj (orbitGroup (planets sample ! 1)) \<and>
   kind (objects sample ! orbitGroup (planets sample ! 1)) = Group \<and>
   planets sample ! 2 \<in> set (planets sample) \<and>
   isAsteroid (data (planets sample ! 2)) \<and>
   data_distance (data (planets sample ! 2)) = None \<and>
   (\<exists>earth. findEarth (planets sample) = Some earth \<and>
      orbitGroup (planets sample ! 2) = orbitGroup earth)"
proof -
  have a: "\<not> isAsteroid (data (planets sample ! 1))" "isAsteroid (data (planets sample ! 2))"
    "data_distance (data (planets sample ! 1)) \<noteq> Some 0"
    by (simp_all only: sample_data) (simp_all add: solarData_def)
  note c = C3_registry_invariant [OF init_sample]
  from c have c1: "\<exists>!b. b \<in> set (planets sample) \<and> data_distance (data b) = Some 0"
    by (rule conjunct1)
  from c sample_bodies(2) a have c2:
    "js_gt0 (data_distance (data (planets sample ! 1)))"
    "parent (objects sample ! mesh (planets sample ! 1)) = Obj (orbitGroup (planets sample ! 1))"
    "kind (objects sample ! orbitGroup (planets sample ! 1)) = Group"
    by blast+
  from c sample_bodies(3) a have c3:
    "data_distance (data (planets sample ! 2)) = None"
    "\<exists>earth. findEarth (planets sample) = Some earth \<and>
      orbitGroup (planets sample ! 2) = orbitGroup earth"
    by blast+
  from init_sample c1 sample_bodies a c2 c3 show ?thesis
    by (simp only: simp_thms)
qed

text \<open>
  Claim C4. For any catalog with an entry named Earth, in every state reached from
  \<^verbatim>\<open>init\<close> by any frames the registry has an Earth; the meteor and the Earth hang
  under the same orbit group, which sits at the origin; with \<open>d\<close> the Earth's distance
  and the group's current angle about the vertical axis, the world position of the
  meteor is \<open>(d + 1.8, 0, 0)\<close> turned by that angle and the world position of the
  Earth is \<open>(d, 0, 0)\<close> turned by the same angle. The meteor is at distance
  \<open>\<bar>d + 1.8\<bar>\<close> from the origin, and \<open>d\<close> is 11 for the catalog of the script.
\<close>

theorem C4_meteor_lockstep:
  assumes "init rnd ico catalog = Some s0"
    and "s = frames ds s0"
  shows "((\<exists>d\<in>set catalog. name d = ''Earth'') \<longrightarrow>
            (\<exists>earth. findEarth (planets s) = Some earth)) \<and>
         (\<forall>earth. findEarth (planets s) = Some earth \<longrightarrow>
            (\<exists>meteor d.
               data_distance (data earth) = Some d \<and>
               meteor \<in> set (planets s) \<and> isAsteroid (data meteor) \<and>
               orbitGroup meteor = orbitGroup earth \<and>
               getWorldPosition (objects s) (orbitGroup earth) = Some (0, 0, 0) \<and>
               getWorldPosition (objects s) (mesh meteor) =
                 Some (rotateY (rotation_y (objects s ! orbitGroup earth)) (d + 1.8, 0, 0)) \<and>
               getWorldPosition (objects s) (mesh earth) =
                 Some (rotateY (rotation_y (objects s ! orbitGroup earth)) (d, 0, 0)) \<and>
               vlength (rotateY (rotation_y (objects s ! orbitGroup earth)) (d + 1.8, 0, 0)) =
                 \<bar>d + 1.8\<bar> \<and>
               (catalog = solarData \<longrightarrow> d = 11)))"
proof (intro conjI impI allI)
  assume "\<exists>d\<in>set catalog. name d = ''Earth''"
  with assms(1) have "\<exists>earth. findEarth (planets s0) = Some earth"
    by (rule earth_found)
  then show "\<exists>earth. findEarth (planets s) = Some earth"
    unfolding assms(2) planets_frames .
next
  fix earth
  assume "findEarth (planets s) = Some earth"
  with assms show "\<exists>meteor d.
               data_distance (data earth) = Some d \<and>
               meteor \<in> set (planets s) \<and> isAsteroid (data meteor) \<and>
               orbitGroup meteor = orbitGroup earth \<and>
               getWorldPosition (objects s) (orbitGroup earth) = Some (0, 0, 0) \<and>
               getWorldPosition (objects s) (mesh meteor) =
                 Some (rotateY (rotation_y (objects s ! orbitGroup earth)) (d + 1.8, 0, 0)) \<and>
               getWorldPosition (objects s) (mesh earth) =
                 Some (rotateY (rotation_y (objects s ! orbitGroup earth)) (d, 0, 0)) \<and>
               vlength (rotateY (rotation_y (objects s ! orbitGroup earth)) (d + 1.8, 0, 0)) =
                 \<bar>d + 1.8\<bar> \<and>
               (catalog = solarData \<longrightarrow> d = 11)"
    by (rule meteor_lockstep_found)
qed

text \<open>
  The instance: the sample run after one frame with elapsed time 1.
\<close>

theorem C4_meteor_lockstep_witness:
  "init (\<lambda>n. 0) (\<lambda>sz detail. []) solarData = Some sample \<and>
   findEarth (planets (frames [1] sample)) = Some (planets sample ! 1) \<and>
   (\<exists>meteor d.
       data_distance (data (planets sample ! 1)) = Some d \<and>
       meteor \<in> set (planets (frames [1] sample)) \<and> isAsteroid (data meteor) \<and>
       orbitGroup meteor = orbitGroup (planets sample ! 1) \<and>
       getWorldPosition (objects (frames [1] sample)) (orbitGroup (planets sample ! 1)) =
         Some (0, 0, 0) \<and>
       getWorldPosition (objects (frames [1] sample)) (mesh meteor) =
         Some (rotateY (rotation_y (objects (frames [1] sample) ! orbitGroup (planets sample ! 1)))
                 (d + 1.8, 0, 0)) \<and>
       getWorldPosition (objects (frames [1] sample)) (mesh (planets sample ! 1)) =
         Some (rotateY (rotation_y (objects (frames [1] sample) ! orbitGroup (planets sample ! 1)))
                 (d, 0, 0)) \<and>
       vlength (rotateY (rotation_y (objects (frames [1] sample) ! orbitGroup (planets sample ! 1)))
                 (d + 1.8, 0, 0)) = \<bar>d + 1.8\<bar> \<and>
       d = 11)"
proof -
  have f: "findEarth (planets (frames [1] sample)) = Some (planets sample ! 1)"
    unfolding planets_frames by (rule findEarth_sample)
  from C4_meteor_lockstep [OF init_sample refl, of "[1]"] f
  have "\<exists>meteor d.
       data_distance (data (planets sample ! 1)) = Some d \<and>
       meteor \<in> set (planets (frames [1] sample)) \<and> isAsteroid (data meteor) \<and>
       orbitGroup meteor = orbitGroup (planets sample ! 1) \<and>
       getWorldPosition (objects (frames [1] sample)) (orbitGroup (planets sample ! 1)) =
         Some (0, 0, 0) \<and>
       getWorldPosition (objects (frames [1] sample)) (mesh meteor) =
         Some (rotateY (rotation_y (objects (frames [1] sample) ! orbitGroup (planets sample ! 1)))
                 (d + 1.8, 0, 0)) \<and>
       getWorldPosition (objects (frames [1] sample)) (mesh (planets sample ! 1)) =
         Some (rotateY (rotation_y (objects (frames [1] sample) ! orbitGroup (planets sample ! 1)))
                 (d, 0, 0)) \<and>
       vlength (rotateY (rotation_y (objects (frames [1] sample) ! orbitGroup (planets sample ! 1)))
                 (d + 1.8, 0, 0)) = \<bar>d + 1.8\<bar> \<and>
       d = 11"
    by blast
  with init_sample f show ?thesis
    by (intro conjI)
qed

text \<open>
  Claim C5. Angles accumulate linearly in the elapsed time, with the multiplier 5. For
  any catalog, in every state reached from \<^verbatim>\<open>init\<close> by any frames, two more frames
  with elapsed times \<open>d1\<close> then \<open>d2\<close> add \<open>rotationSpeed * 5 * (d1 + d2)\<close> to the
  spin angle of every body of the registry, whatever its distance, and add
  \<open>orbitSpeed * 5 * (d1 + d2)\<close> to the angle of the orbit group of every body whose
  distance is positive. For the catalog of the script, one frame with elapsed time 1
  adds 0.09 to the angle of the Earth's orbit group and 0.15 to the Earth's spin.
\<close>

theorem C5_angles_linear:
  assumes "init rnd ico catalog = Some s0"
    and "s = frames ds s0"
  shows "(\<forall>b\<in>set (planets s).
            rotation_y (objects (animate d2 (animate d1 s)) ! mesh b) =
              rotation_y (objects s ! mesh b) + data_rotationSpeed (data b) * 5 * (d1 + d2)) \<and>
         (\<forall>b\<in>set (planets s). js_gt0 (data_distance (data b)) \<longrightarrow>
            rotation_y (objects (animate d2 (animate d1 s)) ! orbitGroup b) =
              rotation_y (objects s ! orbitGroup b) + data_orbitSpeed (data b) * 5 * (d1 + d2)) \<and>
         (catalog = solarData \<longrightarrow>
            (\<exists>earth. findEarth (planets s) = Some earth \<and>
               rotation_y (objects (animate 1.0 s) ! orbitGroup earth) =
                 rotation_y (objects s ! orbitGroup earth) + 0.09 \<and>
               rotation_y (objects (animate 1.0 s) ! mesh earth) =
                 rotation_y (objects s ! mesh earth) + 0.15))"
proof (intro conjI ballI impI)
  note w = init_wellBuilt [OF assms(1)]
  have p: "planets s = planets s0"
    unfolding assms(2) by (rule planets_frames)
  {
    fix b assume "b \<in> set (planets s)"
    then have b: "b \<in> set (planets s0)" by (simp only: p)
    have "rotation_y (objects (frames [d1, d2] (frames ds s0)) ! mesh b) =
            rotation_y (objects (frames ds s0) ! mesh b) + rate (planets s0) (mesh b) * sum_list [d1, d2]"
      by (rule rotation_y_later [OF body_in_range(1) [OF assms(1) b]])
    then show "rotation_y (objects (animate d2 (animate d1 s)) ! mesh b) =
              rotation_y (objects s ! mesh b) + data_rotationSpeed (data b) * 5 * (d1 + d2)"
      unfolding animate2_frames assms(2) rate_mesh [OF w b] by simp
  next
    fix b assume "b \<in> set (planets s)" and g: "js_gt0 (data_distance (data b))"
    then have b: "b \<in> set (planets s0)" by (simp only: p)
    have "rotation_y (objects (frames [d1, d2] (frames ds s0)) ! orbitGroup b) =
            rotation_y (objects (frames ds s0) ! orbitGroup b) +
              rate (planets s0) (orbitGroup b) * sum_list [d1, d2]"
      by (rule rotation_y_later [OF body_in_range(2) [OF assms(1) b]])
    then show "rotation_y (objects (animate d2 (animate d1 s)) ! orbitGroup b) =
              rotation_y (objects s ! orbitGroup b) + data_orbitSpeed (data b) * 5 * (d1 + d2)"
      unfolding animate2_frames assms(2) rate_orbit [OF w b g] by simp
  next
    assume "catalog = solarData"
    with assms(1) have "init rnd ico solarData = Some s0" by simp
    then show "\<exists>earth. findEarth (planets s) = Some earth \<and>
               rotation_y (objects (animate 1.0 s) ! orbitGroup earth) =
                 rotation_y (objects s ! orbitGroup earth) + 0.09 \<and>
               rotation_y (objects (animate 1.0 s) ! mesh earth) =
                 rotation_y (objects s ! mesh earth) + 0.15"
      using assms(2) by (rule solarData_one_second)
  }
qed

text \<open>
  The instance: the Earth in the sample run, elapsed times 1 then 2.
\<close>

theorem C5_angles_linear_witness:
  "init (\<lambda>n. 0) (\<lambda>sz detail. []) solarData = Some sample \<and>
   planets sample ! 1 \<in> set (planets sample) \<and>
   js_gt0 (data_distance (data (planets sample ! 1))) \<and>
   rotation_y (objects (animate 2 (animate 1 sample)) ! mesh (planets sample ! 1)) =
     rotation_y (objects sample ! mesh (planets sample ! 1)) + 0.03 * 5 * (1 + 2) \<and>
   rotation_y (objects (animate 2 (animate 1 sample)) ! orbitGroup (planets sample ! 1)) =
     rotation_y (objects sample ! orbitGroup (planets sample ! 1)) + 0.018 * 5 * (1 + 2)"
proof -
  have m: "planets sample ! 1 \<in> set (planets sample)"
    by (simp add: planets_sample registry_def)
  have g: "js_gt0 (data_distance (data (planets sample ! 1)))"
    by (simp add: planets_sample registry_def solarData_def)
  have sp: "data_rotationSpeed (data (planets sample ! 1)) = 0.03"
    "data_orbitSpeed (data (planets sample ! 1)) = 0.018"
    by (simp_all add: planets_sample registry_def solarData_def)
  note c = C5_angles_linear [OF init_sample frames_Nil, of 2 1]
  from c m have "rotation_y (objects (animate 2 (animate 1 sample)) ! mesh (planets sample ! 1)) =
     rotation_y (objects sample ! mesh (planets sample ! 1)) + data_rotationSpeed (data (planets sample ! 1)) * 5 * (1 + 2)"
    by blast
  moreover from c m g have "rotation_y (objects (animate 2 (animate 1 sample)) ! orbitGroup (planets sample ! 1)) =
     rotation_y (objects sample ! orbitGroup (planets sample ! 1)) + data_orbitSpeed (data (planets sample ! 1)) * 5 * (1 + 2)"
    by blast
  ultimately show ?thesis
    using init_sample m g by (simp only: sp simp_thms)
qed

text \<open>
  Claim C6. For any catalog and every body of the registry whose distance is 0, the
  angle of its orbit group after any number of frames, with any elapsed times, is the
  angle it had after \<^verbatim>\<open>init\<close>.
\<close>

theorem C6_central_pivot_fixed:
  assumes "init rnd ico catalog = Some s0"
  shows "\<forall>b\<in>set (planets s0). data_distance (data b) = Some 0 \<longrightarrow>
           rotation_y (objects (frames ds s0) ! orbitGroup b) =
             rotation_y (objects s0 ! orbitGroup b)"
proof (intro ballI impI)
  fix b
  assume b: "b \<in> set (planets s0)" and d: "data_distance (data b) = Some 0"
  have "rate (planets s0) (orbitGroup b) = 0"
    using init_wellBuilt [OF assms] b d by (rule rate_still) simp
  then show "rotation_y (objects (frames ds s0) ! orbitGroup b) =
             rotation_y (objects s0 ! orbitGroup b)"
    using nth_frames [OF body_in_range(2) [OF assms b], of ds]
    by (simp add: turned_fields)
qed

text \<open>
  The instance: the Sun in the sample run, elapsed times 1 then 2.
\<close>

theorem C6_central_pivot_fixed_witness:
  "init (\<lambda>n. 0) (\<lambda>sz detail. []) solarData = Some sample \<and>
   planets sample ! 0 \<in> set (planets sample) \<and>
   data_distance (data (planets sample ! 0)) = Some 0 \<and>
   rotation_y (objects (frames [1, 2] sample) ! orbitGroup (planets sample ! 0)) =
     rotation_y (objects sample ! orbitGroup (planets sample ! 0))"
  using C6_central_pivot_fixed [OF init_sample, of "[1, 2]"] init_sample sample_bodies(1)
    sample_distances(1)
  by blast

text \<open>
  Claim C7. For any catalog with an entry named Earth the registry has an Earth, and in
  every frame the spin of the Earth is advanced, the angle of its orbit group is
  advanced when its distance \<open>d\<close> is positive, and then the target of the controls
  (and \<^verbatim>\<open>earthTarget\<close>) is the world position of the Earth's mesh in the updated
  scene: \<open>(d, 0, 0)\<close> turned by the updated angle of the Earth's orbit group.
\<close>

theorem C7_camera_target:
  assumes "init rnd ico catalog = Some s0"
    and "s = frames ds s0"
    and "s' = animate delta s"
  shows "((\<exists>d\<in>set catalog. name d = ''Earth'') \<longrightarrow>
            (\<exists>earth. findEarth (planets s) = Some earth)) \<and>
         (\<forall>earth. findEarth (planets s) = Some earth \<longrightarrow>
            (\<exists>p d.
               data_distance (data earth) = Some d \<and>
               findEarth (planets s') = Some earth \<and>
               rotation_y (objects s' ! mesh earth) =
                 rotation_y (objects s ! mesh earth) + data_rotationSpeed (data earth) * delta * 5 \<and>
               rotation_y (objects s' ! orbitGroup earth) =
                 rotation_y (objects s ! orbitGroup earth) +
                   (if d > 0 then data_orbitSpeed (data earth) * delta * 5 else 0) \<and>
               getWorldPosition (objects s') (mesh earth) = Some p \<and>
               p = rotateY (rotation_y (objects s' ! orbitGroup earth)) (d, 0, 0) \<and>
               controls_target s' = p \<and> earthTarget s' = p))"
proof (intro conjI impI allI)
  assume "\<exists>d\<in>set catalog. name d = ''Earth''"
  with assms(1) have "\<exists>earth. findEarth (planets s0) = Some earth"
    by (rule earth_found)
  then show "\<exists>earth. findEarth (planets s) = Some earth"
    unfolding assms(2) planets_frames .
next
  fix earth
  assume "findEarth (planets s) = Some earth"
  with assms show "\<exists>p d.
               data_distance (data earth) = Some d \<and>
               findEarth (planets s') = Some earth \<and>
               rotation_y (objects s' ! mesh earth) =
                 rotation_y (objects s ! mesh earth) + data_rotationSpeed (data earth) * delta * 5 \<and>
               rotation_y (objects s' ! orbitGroup earth) =
                 rotation_y (objects s ! orbitGroup earth) +
                   (if d > 0 then data_orbitSpeed (data earth) * delta * 5 else 0) \<and>
               getWorldPosition (objects s') (mesh earth) = Some p \<and>
               p = rotateY (rotation_y (objects s' ! orbitGroup earth)) (d, 0, 0) \<and>
               controls_target s' = p \<and> earthTarget s' = p"
    by (rule camera_target_found)
qed

text \<open>
  The instance: the first frame of the sample run, with elapsed time 1.
\<close>

theorem C7_camera_target_witness:
  "init (\<lambda>n. 0) (\<lambda>sz detail. []) solarData = Some sample \<and>
   findEarth (planets sample) = Some (planets sample ! 1) \<and>
   (\<exists>p d.
       data_distance (data (planets sample ! 1)) = Some d \<and>
       findEarth (planets (animate 1 sample)) = Some (planets sample ! 1) \<and>
       rotation_y (objects (animate 1 sample) ! mesh (planets sample ! 1)) =
         rotation_y (objects sample ! mesh (planets sample ! 1)) +
           data_rotationSpeed (data (planets sample ! 1)) * 1 * 5 \<and>
       rotation_y (objects (animate 1 sample) ! orbitGroup (planets sample ! 1)) =
         rotation_y (objects sample ! orbitGroup (planets sample ! 1)) +
           (if d > 0 then data_orbitSpeed (data (planets sample ! 1)) * 1 * 5 else 0) \<and>
       getWorldPosition (objects (animate 1 sample)) (mesh (planets sample ! 1)) = Some p \<and>
       p = rotateY (rotation_y (objects (animate 1 sample) ! orbitGroup (planets sample ! 1))) (d, 0, 0) \<and>
       controls_target (animate 1 sample) = p \<and> earthTarget (animate 1 sample) = p)"
proof -
  from C7_camera_target [OF init_sample frames_Nil refl, of 1] findEarth_sample
  have "\<exists>p d.
       data_distance (data (planets sample ! 1)) = Some d \<and>
       findEarth (planets (animate 1 sample)) = Some (planets sample ! 1) \<and>
       rotation_y (objects (animate 1 sample) ! mesh (planets sample ! 1)) =
         rotation_y (objects sample ! mesh (planets sample ! 1)) +
           data_rotationSpeed (data (planets sample ! 1)) * 1 * 5 \<and>
       rotation_y (objects (animate 1 sample) ! orbitGroup (planets sample ! 1)) =
         rotation_y (objects sample ! orbitGroup (planets sample ! 1)) +
           (if d > 0 then data_orbitSpeed (data (planets sample ! 1)) * 1 * 5 else 0) \<and>
       getWorldPosition (objects (animate 1 sample)) (mesh (planets sample ! 1)) = Some p \<and>
       p = rotateY (rotation_y (objects (animate 1 sample) ! orbitGroup (planets sample ! 1))) (d, 0, 0) \<and>
       controls_target (animate 1 sample) = p \<and> earthTarget (animate 1 sample) = p"
    by blast
  with init_sample findEarth_sample show ?thesis
    by (intro conjI)
qed

text \<open>
  Claim C8. \<^verbatim>\<open>createAsteroidMesh\<close> keeps the length of the icosahedron's position
  array and adds to coordinate \<open>j\<close> the offset \<open>(r - 0.5) * 0.1 * size\<close>, where \<open>r\<close>
  is a random number of its own (the draw number \<open>j\<close> of the call). When the random
  numbers lie in \<open>[0, 1)\<close> and the size is not negative, every offset lies within
  \<open>0.05 * size\<close> of zero; the offset is an increasing affine function of the draw that
  maps \<open>[0, 1)\<close> onto \<open>[- 0.05 * size, 0.05 * size)\<close>. Two random sources that agree
  on the draws of the call give the same position array.
\<close>

theorem C8_mesh_displacement:
  assumes "createAsteroidMesh rnd ico c sz s = (m, s')"
  shows "m = length (objects s) \<and> length (objects s') = Suc m \<and>
         length (positionArray (objects s' ! m)) = length (ico sz 1) \<and>
         (\<forall>j<length (ico sz 1).
            positionArray (objects s' ! m) ! j =
              ico sz 1 ! j + (rnd (drawn s + j) - 0.5) * 0.1 * sz) \<and>
         ((\<forall>n. 0 \<le> rnd n \<and> rnd n < 1) \<longrightarrow> 0 \<le> sz \<longrightarrow>
            (\<forall>j<length (ico sz 1).
               \<bar>positionArray (objects s' ! m) ! j - ico sz 1 ! j\<bar> \<le> 0.05 * sz)) \<and>
         (0 < sz \<longrightarrow> (\<lambda>u. (u - 0.5) * 0.1 * sz) ` {0..<1} = {- 0.05 * sz..<0.05 * sz}) \<and>
         (\<forall>rnd'. (\<forall>j<length (ico sz 1). rnd' (drawn s + j) = rnd (drawn s + j)) \<longrightarrow>
            positionArray (objects (snd (createAsteroidMesh rnd' ico c sz s)) ! m) =
              positionArray (objects s' ! m))"
proof -
  let ?n = "nat \<lceil>real (length (ico sz 1)) / 3\<rceil>"
  let ?P = "displaced rnd sz (drawn s) (ico sz 1) ?n"
  note parts = createAsteroidMesh_parts [OF assms]
  have pa: "positionArray (objects s' ! m) = ?P"
    by (rule positionArray_created [OF assms])
  have len: "length (objects s') = Suc m"
    unfolding parts by simp
  have nth: "?P ! j = ico sz 1 ! j + (rnd (drawn s + j) - 0.5) * 0.1 * sz"
    if "j < length (ico sz 1)" for j
    using that less_three_ceiling [OF that] by (simp only: nth_displaced if_True)
  have bound: "\<bar>?P ! j - ico sz 1 ! j\<bar> \<le> 0.05 * sz"
    if "j < length (ico sz 1)" "\<forall>n. 0 \<le> rnd n \<and> rnd n < 1" "0 \<le> sz" for j
  proof -
    have e: "?P ! j - ico sz 1 ! j = (rnd (drawn s + j) - 0.5) * 0.1 * sz"
      by (simp only: nth [OF that(1)] add_diff_cancel_left')
    show ?thesis
      unfolding e by (rule offset_bounds) (use that in auto)
  qed
  have det: "positionArray (objects (snd (createAsteroidMesh rnd' ico c sz s)) ! m) = ?P"
    if "\<forall>j<length (ico sz 1). rnd' (drawn s + j) = rnd (drawn s + j)" for rnd'
  proof -
    have "displaced rnd' sz (drawn s) (ico sz 1) ?n = ?P"
      using that by (intro displaced_cong) simp
    moreover have
      "positionArray (objects (snd (createAsteroidMesh rnd' ico c sz s)) !
          fst (createAsteroidMesh rnd' ico c sz s)) =
        displaced rnd' sz (drawn s) (ico sz 1) ?n"
      by (rule positionArray_created) simp
    moreover have "fst (createAsteroidMesh rnd' ico c sz s) = m"
      unfolding parts(1) createAsteroidMesh_eq by simp
    ultimately show ?thesis by simp
  qed
  have c1: "m = length (objects s)" by (rule parts(1))
  have c3: "length (positionArray (objects s' ! m)) = length (ico sz 1)"
    unfolding pa by (rule length_displaced)
  have c4: "\<forall>j<length (ico sz 1).
            positionArray (objects s' ! m) ! j =
              ico sz 1 ! j + (rnd (drawn s + j) - 0.5) * 0.1 * sz"
    unfolding pa using nth by blast
  have c5: "(\<forall>n. 0 \<le> rnd n \<and> rnd n < 1) \<longrightarrow> 0 \<le> sz \<longrightarrow>
            (\<forall>j<length (ico sz 1).
               \<bar>positionArray (objects s' ! m) ! j - ico sz 1 ! j\<bar> \<le> 0.05 * sz)"
    unfolding pa using bound by blast
  have c6: "0 < sz \<longrightarrow> (\<lambda>u. (u - 0.5) * 0.1 * sz) ` {0..<1} = {- 0.05 * sz..<0.05 * sz}"
    using offset_image [of sz] by blast
  have c7: "\<forall>rnd'. (\<forall>j<length (ico sz 1). rnd' (drawn s + j) = rnd (drawn s + j)) \<longrightarrow>
            positionArray (objects (snd (createAsteroidMesh rnd' ico c sz s)) ! m) =
              positionArray (objects s' ! m)"
    unfolding pa using det by blast
  from c1 len c3 c4 c5 c6 c7 show ?thesis
    by (intro conjI)
qed

text \<open>
  The instance: size 2, a position array of one vertex \<open>[1, 2, 3]\<close>, every random
  number equal to \<open>1 / 4\<close>.
\<close>

theorem C8_mesh_displacement_witness:
  "createAsteroidMesh (\<lambda>n. 1 / 4) (\<lambda>sz detail. [1, 2, 3]) 11393254 2 initial =
     (fst (createAsteroidMesh (\<lambda>n. 1 / 4) (\<lambda>sz detail. [1, 2, 3]) 11393254 2 initial),
      snd (createAsteroidMesh (\<lambda>n. 1 / 4) (\<lambda>sz detail. [1, 2, 3]) 11393254 2 initial)) \<and>
   fst (createAsteroidMesh (\<lambda>n. 1 / 4) (\<lambda>sz detail. [1, 2, 3]) 11393254 2 initial) = 0 \<and>
   positionArray
     (objects (snd (createAsteroidMesh (\<lambda>n. 1 / 4) (\<lambda>sz detail. [1, 2, 3]) 11393254 2 initial)) ! 0) ! 1 =
     2 + (1 / 4 - 0.5) * 0.1 * 2 \<and>
   \<bar>positionArray
     (objects (snd (createAsteroidMesh (\<lambda>n. 1 / 4) (\<lambda>sz detail. [1, 2, 3]) 11393254 2 initial)) ! 0) ! 1
      - 2\<bar> \<le> 0.05 * 2"
proof -
  let ?M = "createAsteroidMesh (\<lambda>n. 1 / 4) (\<lambda>sz detail. [1, 2, 3]) 11393254 2 initial"
  have h: "?M = (fst ?M, snd ?M)" by (rule prod.collapse [symmetric])
  note c = C8_mesh_displacement [OF h]
  have m: "fst ?M = 0"
    using c by (simp add: initial_def)
  have j: "(1::nat) < length [1, 2, 3 :: real]" by simp
  have r: "\<forall>n::nat. (0::real) \<le> 1 / 4 \<and> (1 / 4 :: real) < 1" by simp
  from c j have "positionArray (objects (snd ?M) ! fst ?M) ! 1 =
      [1, 2, 3] ! 1 + (1 / 4 - 0.5) * 0.1 * 2"
    by blast
  then have p: "positionArray (objects (snd ?M) ! 0) ! 1 = 2 + (1 / 4 - 0.5) * 0.1 * 2"
    unfolding m by simp
  have z: "(0::real) \<le> 2" by simp
  from c j r z have "\<bar>positionArray (objects (snd ?M) ! fst ?M) ! 1 - [1, 2, 3] ! 1\<bar> \<le> 0.05 * 2"
    by blast
  then have b: "\<bar>positionArray (objects (snd ?M) ! 0) ! 1 - 2\<bar> \<le> 0.05 * 2"
    unfolding m by simp
  from h m p b show ?thesis
    by (intro conjI)
qed

text \<open>
  Claim C9. For any catalog and every line loop of the scene, the object (its geometry
  and its transform) and the world positions of its vertices after any number of
  frames, with any elapsed times, are those after \<^verbatim>\<open>init\<close>.
\<close>

theorem C9_rings_static:
  assumes "init rnd ico catalog = Some s0"
  shows "\<forall>i<length (objects s0). (\<exists>g m. kind (objects s0 ! i) = LineLoop g m) \<longrightarrow>
           objects (frames ds s0) ! i = objects s0 ! i \<and>
           worldVertices (objects (frames ds s0)) i = worldVertices (objects s0) i"
proof (intro allI impI)
  fix i
  assume i: "i < length (objects s0)" and "\<exists>g m. kind (objects s0 ! i) = LineLoop g m"
  then have l: "isLine (objects s0 ! i)" by (simp only: isLine_iff)
  note w = init_wellBuilt [OF assms]
  have "rate (planets s0) i = 0"
    using w l by (rule rate_line)
  then have same: "objects (frames ds s0) ! i = objects s0 ! i"
    using nth_frames [OF i, of ds] by (simp add: turned_0)
  have p: "parent (objects s0 ! i) = Scene"
    using w i l by (rule wellBuilt_line)
  have i': "i < length (objects (frames ds s0))"
    using i by (simp only: length_frames)
  have p': "parent (objects (frames ds s0) ! i) = Scene"
    unfolding same by (rule p)
  have "worldVertices (objects (frames ds s0)) i = worldVertices (objects s0) i"
    unfolding worldVertices_Scene [OF i p] worldVertices_Scene [OF i' p'] same ..
  with same show "objects (frames ds s0) ! i = objects s0 ! i \<and>
           worldVertices (objects (frames ds s0)) i = worldVertices (objects s0) i"
    by (rule conjI)
qed

text \<open>
  The instance: the Earth's ring in the sample run, elapsed times 1 then 2.
\<close>

theorem C9_rings_static_witness:
  "init (\<lambda>n. 0) (\<lambda>sz detail. []) solarData = Some sample \<and>
   4 < length (objects sample) \<and>
   kind (objects sample ! 4) =
     LineLoop (BufferGeometry (orbitPoints 11 64)) (LineBasicMaterial 4473924 1) \<and>
   objects (frames [1, 2] sample) ! 4 = objects sample ! 4 \<and>
   worldVertices (objects (frames [1, 2] sample)) 4 = worldVertices (objects sample) 4"
proof -
  have l: "4 < length (objects sample)"
    by (simp add: sample_def objects_sceneAt)
  have k: "kind (objects sample ! 4) =
     LineLoop (BufferGeometry (orbitPoints 11 64)) (LineBasicMaterial 4473924 1)"
    by (simp add: sample_def objects_sceneAt kind_parts)
  then have "\<exists>g m. kind (objects sample ! 4) = LineLoop g m"
    by blast
  with C9_rings_static [OF init_sample, of "[1, 2]"] l
  have "objects (frames [1, 2] sample) ! 4 = objects sample ! 4 \<and>
    worldVertices (objects (frames [1, 2] sample)) 4 = worldVertices (objects sample) 4"
    by blast
  with init_sample l k show ?thesis
    by (simp only: simp_thms)
qed

text \<open>
  Claim C10. For any catalog with no entry named Earth, \<^verbatim>\<open>createSolarSystem\<close>
  and \<^verbatim>\<open>init\<close> return the state in which every entry has been built and nothing
  else: the registry holds the catalog entries in order, with no meteor, and both
  targets are still at the origin. A frame is then the updates of the bodies alone, and
  after any number of frames the registry and both targets are unchanged.
\<close>

theorem C10_no_tracked_planet:
  assumes "\<forall>d\<in>set catalog. name d \<noteq> ''Earth''"
  shows "\<exists>s. createSolarSystem rnd ico catalog initial = Some s \<and>
             init rnd ico catalog = Some s \<and>
             s = fold (buildEntry rnd) catalog initial \<and>
             map data (planets s) = map Catalog catalog \<and>
             controls_target s = (0, 0, 0) \<and> earthTarget s = (0, 0, 0) \<and>
             animate delta s = fold (updateBody delta) (planets s) s \<and>
             planets (frames ds s) = planets s \<and>
             controls_target (frames ds s) = (0, 0, 0) \<and>
             earthTarget (frames ds s) = (0, 0, 0)"
proof -
  let ?s = "fold (buildEntry rnd) catalog initial"
  have d: "map data (planets ?s) = map Catalog catalog"
    by (simp add: fold_buildEntry_frame initial_def)
  have t: "controls_target ?s = (0, 0, 0)" "earthTarget ?s = (0, 0, 0)"
    by (simp_all add: fold_buildEntry_frame initial_def)
  have n: "findEarth (planets ?s) = None"
    unfolding findEarth_None_iff d using assms by simp
  have c: "createSolarSystem rnd ico catalog initial = Some ?s"
    by (simp add: createSolarSystem_def Let_def n)
  have i: "init rnd ico catalog = Some ?s"
    by (simp add: init_def c n)
  have a: "animate delta ?s = fold (updateBody delta) (planets ?s) ?s"
    by (rule animate_no_Earth [OF n])
  note f = frames_no_Earth [OF n, of ds]
  show ?thesis
    apply (rule exI [of _ ?s])
    using c i d t a f by (simp only: simp_thms)
qed

text \<open>
  The instance: the catalog that holds the Sun only, elapsed times 1 then 2.
\<close>

theorem C10_no_tracked_planet_witness:
  "name (solarData ! 0) \<noteq> ''Earth'' \<and>
   (\<exists>s. createSolarSystem (\<lambda>n. 0) (\<lambda>sz detail. []) [solarData ! 0] initial = Some s \<and>
      init (\<lambda>n. 0) (\<lambda>sz detail. []) [solarData ! 0] = Some s \<and>
      s = fold (buildEntry (\<lambda>n. 0)) [solarData ! 0] initial \<and>
      map data (planets s) = map Catalog [solarData ! 0] \<and>
      controls_target s = (0, 0, 0) \<and> earthTarget s = (0, 0, 0) \<and>
      animate 1 s = fold (updateBody 1) (planets s) s \<and>
      planets (frames [1, 2] s) = planets s \<and>
      controls_target (frames [1, 2] s) = (0, 0, 0) \<and>
      earthTarget (frames [1, 2] s) = (0, 0, 0))"
proof -
  have n: "name (solarData ! 0) \<noteq> ''Earth''"
    by (simp add: solarData_def)
  then have "\<forall>d\<in>set [solarData ! 0]. name d \<noteq> ''Earth''"
    by simp
  from C10_no_tracked_planet [OF this, of "\<lambda>n. 0" "\<lambda>sz detail. []" 1 "[1, 2]"] n
  show ?thesis
    by (rule conjI [rotated])
qed

end
